theory Spec2Isabelle
  imports Complex_Main
begin

section \<open>The operating system as the add-on sees it\<close>

text \<open>
  The add-on reaches the operating system through \<^verbatim>\<open>os.path\<close>, \<^verbatim>\<open>os.makedirs\<close> and
  \<^verbatim>\<open>platform.system()\<close>. The path functions differ between platforms, so they are the
  fields of a record; \<open>posix\<close> below is the instance of \<^verbatim>\<open>posixpath\<close>.
  \<open>recursion_limit\<close> is the number of nested Python frames a call may still open
  before the interpreter raises \<^verbatim>\<open>RecursionError\<close>.
\<close>

record platform =
  system :: string
  path_dirname :: "string \<Rightarrow> string"
  path_basename :: "string \<Rightarrow> string"
  path_join :: "string \<Rightarrow> string \<Rightarrow> string"
  path_splitdrive :: "string \<Rightarrow> string \<times> string"
  recursion_limit :: nat

text \<open>The exceptions that reach the code; \<open>exn_str\<close> is Python's \<^verbatim>\<open>str(e)\<close>.\<close>

datatype exn =
    PermissionError string
  | FileNotFoundError string
  | RecursionError
  | OtherError string

fun exn_str :: "exn \<Rightarrow> string" where
  "exn_str (PermissionError m) = m"
| "exn_str (FileNotFoundError m) = m"
| "exn_str RecursionError = ''maximum recursion depth exceeded while calling a Python object''"
| "exn_str (OtherError m) = m"

text \<open>
  The filesystem: \<open>present\<close> is \<^verbatim>\<open>os.path.exists\<close>; \<open>mkdir_fault p\<close> is the exception
  that \<^verbatim>\<open>os.makedirs(p, exist_ok=True)\<close> raises, if the system refuses to create \<open>p\<close>.
  Every call of \<^verbatim>\<open>os.makedirs\<close> in the add-on comes after a check that the parent of the
  path exists, so a successful call creates the one directory.
\<close>

record filesystem =
  present :: "string \<Rightarrow> bool"
  mkdir_fault :: "string \<Rightarrow> exn option"

definition os_makedirs :: "filesystem \<Rightarrow> string \<Rightarrow> exn + filesystem" where
  "os_makedirs fs p =
     (case mkdir_fault fs p of
        Some e \<Rightarrow> Inl e
      | None \<Rightarrow> Inr (fs\<lparr>present := (present fs)(p := True)\<rparr>))"

subsection \<open>posixpath\<close>

definition slash :: char where
  "slash = CHR ''/''"

definition apostrophe :: char where
  "apostrophe = CHR 0x27"

text \<open>\<^verbatim>\<open>p[:p.rfind('/') + 1]\<close>: the prefix up to and including the last slash.\<close>

definition posix_head :: "string \<Rightarrow> string" where
  "posix_head p = rev (dropWhile (\<lambda>c. c \<noteq> slash) (rev p))"

definition rstrip_slash :: "string \<Rightarrow> string" where
  "rstrip_slash s = rev (dropWhile (\<lambda>c. c = slash) (rev s))"

definition posix_dirname :: "string \<Rightarrow> string" where
  "posix_dirname p =
     (let head = posix_head p
      in if head \<noteq> [] \<and> head \<noteq> replicate (length head) slash
         then rstrip_slash head else head)"

definition posix_basename :: "string \<Rightarrow> string" where
  "posix_basename p = rev (takeWhile (\<lambda>c. c \<noteq> slash) (rev p))"

definition posix_join :: "string \<Rightarrow> string \<Rightarrow> string" where
  "posix_join a b =
     (if b \<noteq> [] \<and> hd b = slash then b
      else if a = [] \<or> last a = slash then a @ b
      else a @ [slash] @ b)"

definition posix :: platform where
  "posix = \<lparr> system = ''Linux'',
             path_dirname = posix_dirname,
             path_basename = posix_basename,
             path_join = posix_join,
             path_splitdrive = (\<lambda>p. ([], p)),
             recursion_limit = 1000 \<rparr>"

section \<open>Path Helper\<close>

text \<open>
  \<^verbatim>\<open>check_path_exists(path)\<close>. The function calls itself on the parent directory; the
  first argument after the filesystem counts the frames that are left, and a call with
  none left raises \<^verbatim>\<open>RecursionError\<close>.
\<close>

definition drive_message :: "string \<Rightarrow> string" where
  "drive_message drive =
     ''Drive '' @ [apostrophe] @ drive @ [apostrophe] @ '' does not exist or is not accessible.''"

definition path_message :: "string \<Rightarrow> string" where
  "path_message path = ''Path '' @ [apostrophe] @ path @ [apostrophe] @ '' is not accessible.''"

text \<open>The test of the Windows branch: the path has a drive and the drive does not exist.\<close>

definition drive_missing :: "platform \<Rightarrow> filesystem \<Rightarrow> string \<Rightarrow> bool" where
  "drive_missing pf fs path =
     (system pf = ''Windows''
      \<and> fst (path_splitdrive pf path) \<noteq> []
      \<and> \<not> present fs (fst (path_splitdrive pf path)))"

fun check_path_exists :: "platform \<Rightarrow> filesystem \<Rightarrow> nat \<Rightarrow> string \<Rightarrow> exn + bool \<times> string" where
  "check_path_exists pf fs 0 path = Inl RecursionError"
| "check_path_exists pf fs (Suc depth) path =
     (if present fs path then Inr (True, [])
      else if drive_missing pf fs path
      then Inr (False, drive_message (fst (path_splitdrive pf path)))
      else if path_dirname pf path \<noteq> [] \<and> \<not> present fs (path_dirname pf path)
      then check_path_exists pf fs depth (path_dirname pf path)
      else Inr (False, path_message path))"

text \<open>
  \<^verbatim>\<open>ensure_directory_exists(directory_path)\<close>: the three \<^verbatim>\<open>except\<close> clauses are
  \<open>creation_failure\<close>; the result is the pair the function returns and the filesystem
  it leaves.
\<close>

fun creation_failure :: "string \<Rightarrow> exn \<Rightarrow> bool \<times> string" where
  "creation_failure p (PermissionError m) =
     (False, ''Permission denied: Cannot create directory '' @ [apostrophe] @ p @ [apostrophe])"
| "creation_failure p (FileNotFoundError m) =
     (False, ''Path not found: Cannot create directory '' @ [apostrophe] @ p @ [apostrophe])"
| "creation_failure p e =
     (False, ''Error creating directory '' @ [apostrophe] @ p @ [apostrophe] @ '': '' @ exn_str e)"

definition ensure_directory_exists ::
  "platform \<Rightarrow> filesystem \<Rightarrow> string \<Rightarrow> (bool \<times> string) \<times> filesystem" where
  "ensure_directory_exists pf fs directory_path =
     (case check_path_exists pf fs (recursion_limit pf) (path_dirname pf directory_path) of
        Inl e \<Rightarrow> (creation_failure directory_path e, fs)
      | Inr (exists, msg) \<Rightarrow>
          if \<not> exists then ((False, msg), fs)
          else if \<not> present fs directory_path then
            (case os_makedirs fs directory_path of
               Inl e \<Rightarrow> (creation_failure directory_path e, fs)
             | Inr fs' \<Rightarrow> ((True, []), fs'))
          else ((True, []), fs))"

section \<open>The host scene\<close>

text \<open>
  Objects and collections are data blocks of the host, compared by identity in Python;
  the host keeps the names of data blocks of one kind unique, so a block is identified
  here by its contents. \<open>coll_objects\<close> and \<open>coll_children\<close> are the collection's
  \<^verbatim>\<open>objects\<close> and \<^verbatim>\<open>children\<close> in the host's order.
\<close>

record obj =
  obj_name :: string
  obj_type :: string
  obj_hide_viewport :: bool

datatype collection =
  Collection (coll_name: string) (coll_hide_viewport: bool)
    (coll_objects: "obj list") (coll_children: "collection list")

datatype layer_collection =
  LayerCollection (lc_hide_viewport: bool) (lc_collection: collection)
    (lc_children: "layer_collection list")

text \<open>\<^verbatim>\<open>collection.all_objects\<close>: the objects of the collection and of every collection below it.\<close>

fun all_objects :: "collection \<Rightarrow> obj list" where
  "all_objects (Collection name hide objs children) = objs @ concat (map all_objects children)"

section \<open>Scene Traversal\<close>

text \<open>
  \<^verbatim>\<open>gather_top_level_collections\<close>. The inner function \<^verbatim>\<open>recurse_layer_coll\<close> updates the
  set \<^verbatim>\<open>all_visible\<close> and the dictionary \<^verbatim>\<open>child_to_parent\<close> of the enclosing call; here
  it takes the pair and returns it. \<open>recurse_layer_colls\<close> is the loop over the children.
  A Python set has no order of its own: \<open>set_add\<close> keeps the elements in the order of
  their first insertion.
\<close>

definition set_add :: "'a \<Rightarrow> 'a list \<Rightarrow> 'a list" where
  "set_add x xs = (if x \<in> set xs then xs else xs @ [x])"

type_synonym walk = "collection list \<times> (collection \<rightharpoonup> collection)"

fun recurse_layer_coll :: "layer_collection \<Rightarrow> collection option \<Rightarrow> walk \<Rightarrow> walk"
  and recurse_layer_colls :: "layer_collection list \<Rightarrow> collection option \<Rightarrow> walk \<Rightarrow> walk" where
  "recurse_layer_coll (LayerCollection hide coll children) parent_coll (all_visible, child_to_parent) =
     recurse_layer_colls children (Some coll)
       (if \<not> hide \<and> \<not> coll_hide_viewport coll
        then (set_add coll all_visible,
              case parent_coll of
                None \<Rightarrow> child_to_parent
              | Some p \<Rightarrow> child_to_parent(coll \<mapsto> p))
        else (all_visible, child_to_parent))"
| "recurse_layer_colls [] parent_coll w = w"
| "recurse_layer_colls (child # rest) parent_coll w =
     recurse_layer_colls rest parent_coll (recurse_layer_coll child parent_coll w)"

definition layer_walk :: "layer_collection list \<Rightarrow> walk" where
  "layer_walk roots = recurse_layer_colls roots None ([], Map.empty)"

definition gather_top_level_collections :: "layer_collection list \<Rightarrow> collection list" where
  "gather_top_level_collections roots =
     (case layer_walk roots of
        (all_visible, child_to_parent) \<Rightarrow> filter (\<lambda>c. child_to_parent c = None) all_visible)"

text \<open>
  The visibility-filtered layer hierarchy, for stating properties of the walk: a node is
  visible when neither its layer link nor its collection is hidden; \<open>visible_at n below\<close>
  lists the collections of the visible nodes of the subtree of \<open>n\<close>, the node \<open>n\<close> itself
  counted only when \<open>below\<close> says it hangs under another node; \<open>visible_below n\<close> are the
  collections of the visible nodes strictly below \<open>n\<close>, and \<open>layer_nodes\<close> are all nodes.
\<close>

definition lc_visible :: "layer_collection \<Rightarrow> bool" where
  "lc_visible n = (\<not> lc_hide_viewport n \<and> \<not> coll_hide_viewport (lc_collection n))"

fun visible_at :: "layer_collection \<Rightarrow> bool \<Rightarrow> collection list"
  and visible_ats :: "layer_collection list \<Rightarrow> bool \<Rightarrow> collection list" where
  "visible_at (LayerCollection hide coll children) below =
     (if \<not> hide \<and> \<not> coll_hide_viewport coll \<and> below then [coll] else [])
       @ visible_ats children True"
| "visible_ats [] below = []"
| "visible_ats (child # rest) below = visible_at child below @ visible_ats rest below"

definition visible_below :: "layer_collection \<Rightarrow> collection list" where
  "visible_below n = visible_ats (lc_children n) True"

fun layer_nodes :: "layer_collection \<Rightarrow> layer_collection list"
  and layer_nodes_list :: "layer_collection list \<Rightarrow> layer_collection list" where
  "layer_nodes (LayerCollection hide coll children) =
     LayerCollection hide coll children # layer_nodes_list children"
| "layer_nodes_list [] = []"
| "layer_nodes_list (child # rest) = layer_nodes child @ layer_nodes_list rest"

text \<open>\<^verbatim>\<open>gather_all_objects_recursive(collection, allowed_types)\<close>.\<close>

definition allowed_visible :: "string set \<Rightarrow> obj list \<Rightarrow> obj list" where
  "allowed_visible allowed_types objs =
     filter (\<lambda>ob. obj_type ob \<in> allowed_types \<and> \<not> obj_hide_viewport ob) objs"

fun gather_all_objects_recursive :: "collection \<Rightarrow> string set \<Rightarrow> obj list" where
  "gather_all_objects_recursive (Collection name hide objs children) allowed_types =
     allowed_visible allowed_types objs
       @ concat (map (\<lambda>child_coll. gather_all_objects_recursive child_coll allowed_types) children)"

section \<open>The host application\<close>

text \<open>
  The persisted options of the add-on (\<^verbatim>\<open>context.scene.vrsefbx_exporter\<close>), without the
  list \<^verbatim>\<open>exported_files\<close>, which changes during a run and is part of the state below.
\<close>

record props =
  export_mode :: string
  export_mesh :: bool
  export_armature :: bool
  export_empty :: bool
  export_camera :: bool
  export_lamp :: bool
  export_other :: bool
  export_animations :: bool
  apply_transform :: bool
  export_smoothing :: string
  embed_textures :: bool
  axis_forward :: string
  axis_up :: string
  apply_unit :: bool
  use_space_transform :: bool
  apply_scale_options :: string
  apply_modifiers :: bool
  combine_nested_collections :: bool
  separate_child_collections :: bool
  as_single_mesh :: bool
  make_separate_folders :: bool

text \<open>The keyword arguments of one call of \<^verbatim>\<open>bpy.ops.export_scene.fbx\<close>.\<close>

record fbx_args =
  check_existing :: bool
  filepath :: string
  filter_glob :: string
  use_selection :: bool
  object_types :: "string set"
  bake_anim :: bool
  bake_anim_use_all_bones :: bool
  bake_anim_use_all_actions :: bool
  use_armature_deform_only :: bool
  bake_space_transform :: bool
  mesh_smooth_type :: string
  add_leaf_bones :: bool
  arg_embed_textures :: bool
  path_mode :: string
  arg_axis_forward :: string
  arg_axis_up :: string
  global_scale :: real
  apply_unit_scale :: bool
  arg_use_space_transform :: bool
  arg_apply_scale_options :: string
  use_mesh_modifiers :: bool

text \<open>
  One invocation of the host's exporter: its arguments and the objects that are
  selected when it runs (the call exports the selection).
\<close>

record fbx_job =
  job_args :: fbx_args
  job_objects :: "obj list"

text \<open>
  What the host does is outside the add-on: \<open>fbx_exporter\<close> gives the message of the
  exception the exporter raises for a job (\<open>None\<close>: it writes the file), \<open>mode_set_ok\<close>
  says whether \<^verbatim>\<open>bpy.ops.object.mode_set(mode='OBJECT')\<close> succeeds from a mode, and
  \<open>bpy_abspath\<close> is \<^verbatim>\<open>bpy.path.abspath\<close>. The scene is read, never changed, by a run.
\<close>

record blender =
  fbx_exporter :: "fbx_job \<Rightarrow> string option"
  mode_set_ok :: "string \<Rightarrow> bool"
  bpy_abspath :: "string \<Rightarrow> string"

record scene =
  layer_children :: "layer_collection list"
  view_layer_objects :: "obj list"
  users_collection :: "obj \<Rightarrow> collection list"

record ctx =
  os :: platform
  host :: blender
  scn :: scene
  opts :: props

text \<open>
  Everything a run changes: the filesystem, the interaction mode, the selection and the
  active object, the add-on's list of exported files, the messages of \<^verbatim>\<open>self.report\<close>,
  the exporter invocations so far, and the invocations of the summary dialog
  (\<^verbatim>\<open>bpy.ops.vrse.show_exported_files\<close>), each with the list it is shown.
\<close>

record state =
  fs :: filesystem
  mode :: string
  selected_objects :: "obj list"
  active_object :: "obj option"
  exported_files :: "(string \<times> string) list"
  reports :: "(string \<times> string) list"
  fbx_jobs :: "fbx_job list"
  summary_dialogs :: "(string \<times> string) list list"

definition report :: "string \<Rightarrow> string \<Rightarrow> state \<Rightarrow> state" where
  "report severity msg st = st\<lparr>reports := reports st @ [(severity, msg)]\<rparr>"

text \<open>
  \<^verbatim>\<open>o.select_set(True)\<close> and \<^verbatim>\<open>bpy.ops.object.select_all(action='DESELECT')\<close>, for
  objects that the host lets be selected: the host ignores \<^verbatim>\<open>select_set(True)\<close> on an object
  that is not visible in the view layer, and such objects are outside this model of the
  selection.
\<close>

definition select_set :: "obj \<Rightarrow> state \<Rightarrow> state" where
  "select_set ob st = st\<lparr>selected_objects := set_add ob (selected_objects st)\<rparr>"

definition deselect_all :: "state \<Rightarrow> state" where
  "deselect_all st = st\<lparr>selected_objects := []\<rparr>"

section \<open>Export Invoker\<close>

text \<open>\<^verbatim>\<open>get_object_types\<close>: the object kinds the traversal keeps.\<close>

definition get_object_types :: "props \<Rightarrow> string set" where
  "get_object_types p =
     (if export_empty p then {''EMPTY''} else {})
     \<union> (if export_camera p then {''CAMERA''} else {})
     \<union> (if export_lamp p then {''LIGHT''} else {})
     \<union> (if export_armature p then {''ARMATURE''} else {})
     \<union> (if export_mesh p then {''MESH''} else {})
     \<union> (if export_other p then {''OTHER''} else {})"

text \<open>The set \<^verbatim>\<open>ex_object_types\<close> that \<^verbatim>\<open>export_fbx\<close> passes to the exporter.\<close>

definition ex_object_types :: "props \<Rightarrow> string set" where
  "ex_object_types p =
     (if export_mesh p then {''MESH''} else {})
     \<union> (if export_armature p \<or> export_animations p then {''ARMATURE''} else {})
     \<union> (if export_empty p then {''EMPTY''} else {})
     \<union> (if export_camera p then {''CAMERA''} else {})
     \<union> (if export_lamp p then {''LIGHT''} else {})
     \<union> (if export_other p then {''OTHER''} else {})"

definition fbx_arguments :: "props \<Rightarrow> string \<Rightarrow> fbx_args" where
  "fbx_arguments p path =
     \<lparr> check_existing = False,
       filepath = path,
       filter_glob = ''*.fbx'',
       use_selection = True,
       object_types = ex_object_types p,
       bake_anim = export_animations p,
       bake_anim_use_all_bones = export_animations p,
       bake_anim_use_all_actions = export_animations p,
       use_armature_deform_only = True,
       bake_space_transform = apply_transform p,
       mesh_smooth_type = export_smoothing p,
       add_leaf_bones = False,
       arg_embed_textures = embed_textures p,
       path_mode = (if embed_textures p then ''COPY'' else ''AUTO''),
       arg_axis_forward = axis_forward p,
       arg_axis_up = axis_up p,
       global_scale = 1.0,
       apply_unit_scale = apply_unit p,
       arg_use_space_transform = use_space_transform p,
       arg_apply_scale_options = apply_scale_options p,
       use_mesh_modifiers = apply_modifiers p \<rparr>"

text \<open>\<^verbatim>\<open>ensure_directory_exists\<close> on the filesystem of the state.\<close>

definition ensure_directory :: "ctx \<Rightarrow> string \<Rightarrow> state \<Rightarrow> (bool \<times> string) \<times> state" where
  "ensure_directory E p st =
     (case ensure_directory_exists (os E) (fs st) p of
        (r, fs') \<Rightarrow> (r, st\<lparr>fs := fs'\<rparr>))"

text \<open>The steps of \<^verbatim>\<open>export_fbx\<close> between the directory check and the exporter call.\<close>

definition enter_object_mode :: "ctx \<Rightarrow> state \<Rightarrow> state" where
  "enter_object_mode E st =
     (if mode st \<noteq> ''OBJECT'' \<and> mode_set_ok (host E) (mode st)
      then st\<lparr>mode := ''OBJECT''\<rparr> else st)"

definition select_only :: "ctx \<Rightarrow> obj list \<Rightarrow> state \<Rightarrow> state" where
  "select_only E objects st =
     (let valid_objects = filter (\<lambda>ob. ob \<in> set (view_layer_objects (scn E))) objects;
          st1 = fold select_set valid_objects (deselect_all st)
      in case valid_objects of
           [] \<Rightarrow> st1
         | first # others \<Rightarrow> st1\<lparr>active_object := Some first\<rparr>)"

text \<open>
  The exporter call: the invocation is logged; when the exporter raises, the error is
  reported and the result is \<open>False\<close>; otherwise the exporter has written the file and
  the record \<open>(basename, path)\<close> is appended to the list of exported files.
\<close>

definition call_exporter :: "ctx \<Rightarrow> string \<Rightarrow> state \<Rightarrow> bool \<times> state" where
  "call_exporter E path st =
     (let job = \<lparr> job_args = fbx_arguments (opts E) path, job_objects = selected_objects st \<rparr>;
          st1 = st\<lparr>fbx_jobs := fbx_jobs st @ [job]\<rparr>
      in case fbx_exporter (host E) job of
           Some e \<Rightarrow> (False, report ''ERROR'' (''Error exporting to '' @ path @ '': '' @ e) st1)
         | None \<Rightarrow>
             (True, st1\<lparr>fs := (fs st1)\<lparr>present := (present (fs st1))(path := True)\<rparr>,
                        exported_files := exported_files st1 @ [(path_basename (os E) path, path)]\<rparr>))"

definition export_fbx :: "ctx \<Rightarrow> string \<Rightarrow> obj list \<Rightarrow> state \<Rightarrow> bool \<times> state" where
  "export_fbx E path objects st =
     (if objects = [] then (False, st)
      else case ensure_directory E (path_dirname (os E) path) st of
             ((success, msg), st1) \<Rightarrow>
               if \<not> success then (False, report ''ERROR'' msg st1)
               else call_exporter E path (select_only E objects (enter_object_mode E st1)))"

section \<open>Export Orchestrator\<close>

text \<open>
  \<^verbatim>\<open>export_collection_recursive\<close>. \<open>collection_folder\<close> is its first step (the subfolder),
  \<open>export_combined\<close> and \<open>export_direct\<close> are the two export branches, and
  \<open>export_collections\<close> is the loop
  \<^verbatim>\<open>for c in ...: exported_count += self.export_collection_recursive(...)\<close>, which the
  source runs over the children of a collection and over the top-level collections.
\<close>

definition collection_folder :: "ctx \<Rightarrow> collection \<Rightarrow> string \<Rightarrow> bool \<Rightarrow> state \<Rightarrow> string option \<times> state" where
  "collection_folder E coll parent_dir create_subfolder st =
     (if create_subfolder then
        (case ensure_directory E (path_join (os E) parent_dir (coll_name coll)) st of
           ((success, msg), st1) \<Rightarrow>
             if \<not> success then (None, report ''ERROR'' msg st1)
             else (Some (path_join (os E) parent_dir (coll_name coll)), st1))
      else (Some parent_dir, st))"

definition fbx_path :: "ctx \<Rightarrow> string \<Rightarrow> string \<Rightarrow> string" where
  "fbx_path E folder name = path_join (os E) folder (name @ ''.fbx'')"

definition count_export :: "bool \<times> state \<Rightarrow> nat \<times> state" where
  "count_export r = (if fst r then 1 else 0, snd r)"

definition export_combined :: "ctx \<Rightarrow> collection \<Rightarrow> string \<Rightarrow> string set \<Rightarrow> state \<Rightarrow> nat \<times> state" where
  "export_combined E coll coll_folder allowed_types st =
     (let all_objs = gather_all_objects_recursive coll allowed_types
      in if all_objs \<noteq> []
         then count_export (export_fbx E (fbx_path E coll_folder (coll_name coll)) all_objs st)
         else (0, st))"

definition export_direct :: "ctx \<Rightarrow> collection \<Rightarrow> string \<Rightarrow> string set \<Rightarrow> state \<Rightarrow> nat \<times> state" where
  "export_direct E coll coll_folder allowed_types st =
     (let direct_objs = allowed_visible allowed_types (coll_objects coll)
      in if direct_objs \<noteq> []
         then count_export (export_fbx E (fbx_path E coll_folder (coll_name coll)) direct_objs st)
         else (0, st))"

fun export_collection_recursive ::
    "ctx \<Rightarrow> collection \<Rightarrow> string \<Rightarrow> string set \<Rightarrow> bool \<Rightarrow> state \<Rightarrow> nat \<times> state"
  and export_collections ::
    "ctx \<Rightarrow> collection list \<Rightarrow> string \<Rightarrow> string set \<Rightarrow> bool \<Rightarrow> state \<Rightarrow> nat \<times> state" where
  "export_collection_recursive E (Collection name hide objs children) parent_dir allowed_types
       create_subfolder st =
     (case collection_folder E (Collection name hide objs children) parent_dir create_subfolder st of
        (None, st1) \<Rightarrow> (0, st1)
      | (Some coll_folder, st1) \<Rightarrow>
          if combine_nested_collections (opts E) \<and> children \<noteq> []
          then export_combined E (Collection name hide objs children) coll_folder allowed_types st1
          else
            (case export_direct E (Collection name hide objs children) coll_folder allowed_types st1 of
               (n1, st2) \<Rightarrow>
                 (case (if separate_child_collections (opts E)
                        then export_collections E children coll_folder allowed_types True st2
                        else export_collections E children coll_folder allowed_types False st2) of
                    (n2, st3) \<Rightarrow> (n1 + n2, st3))))"
| "export_collections E [] parent_dir allowed_types create_subfolder st = (0, st)"
| "export_collections E (coll # rest) parent_dir allowed_types create_subfolder st =
     (case export_collection_recursive E coll parent_dir allowed_types create_subfolder st of
        (n1, st1) \<Rightarrow>
          (case export_collections E rest parent_dir allowed_types create_subfolder st1 of
             (n2, st2) \<Rightarrow> (n1 + n2, st2)))"

text \<open>
  \<^verbatim>\<open>gather_selected_by_collection\<close>: a dictionary from collections to lists of objects,
  filled with \<^verbatim>\<open>setdefault(coll, []).append(obj)\<close>; its keys keep their insertion order.
\<close>

type_synonym coll_map = "(collection \<times> obj list) list"

fun setdefault_append :: "collection \<Rightarrow> obj \<Rightarrow> coll_map \<Rightarrow> coll_map" where
  "setdefault_append c ob [] = [(c, [ob])]"
| "setdefault_append c ob ((k, v) # rest) =
     (if k = c then (k, v @ [ob]) # rest else (k, v) # setdefault_append c ob rest)"

definition gather_selected_by_collection :: "scene \<Rightarrow> obj list \<Rightarrow> coll_map" where
  "gather_selected_by_collection sc selected_objs =
     fold (\<lambda>ob m. fold (\<lambda>c. setdefault_append c ob) (users_collection sc ob) m) selected_objs []"

text \<open>
  \<^verbatim>\<open>export_selected_as_collections\<close>; the set \<^verbatim>\<open>visited\<close> is shared by all calls, so it
  is passed and returned. \<open>export_mapped\<close> exports the objects mapped to the collection,
  \<open>export_selected_children\<close> is the loop over the children.
\<close>

definition export_mapped :: "ctx \<Rightarrow> coll_map \<Rightarrow> collection \<Rightarrow> string \<Rightarrow> state \<Rightarrow> nat \<times> state" where
  "export_mapped E coll_map parent_coll coll_folder st =
     (case map_of coll_map parent_coll of
        None \<Rightarrow> (0, st)
      | Some objs \<Rightarrow>
          if objs \<noteq> []
          then count_export (export_fbx E (fbx_path E coll_folder (coll_name parent_coll)) objs st)
          else (0, st))"

fun export_selected_as_collections ::
    "ctx \<Rightarrow> coll_map \<Rightarrow> collection \<Rightarrow> string \<Rightarrow> collection list \<Rightarrow> state
       \<Rightarrow> nat \<times> collection list \<times> state"
  and export_selected_children ::
    "ctx \<Rightarrow> coll_map \<Rightarrow> collection list \<Rightarrow> string \<Rightarrow> collection list \<Rightarrow> state
       \<Rightarrow> nat \<times> collection list \<times> state" where
  "export_selected_as_collections E coll_map (Collection name hide objs children) parent_dir
       visited st =
     (if Collection name hide objs children \<in> set visited then (0, visited, st)
      else
        (case ensure_directory E (path_join (os E) parent_dir name) st of
           ((success, msg), st1) \<Rightarrow>
             if \<not> success
             then (0, Collection name hide objs children # visited, report ''ERROR'' msg st1)
             else
               (case export_mapped E coll_map (Collection name hide objs children)
                       (path_join (os E) parent_dir name) st1 of
                  (n1, st2) \<Rightarrow>
                    (case export_selected_children E coll_map children
                            (path_join (os E) parent_dir name)
                            (Collection name hide objs children # visited) st2 of
                       (n2, visited', st3) \<Rightarrow> (n1 + n2, visited', st3)))))"
| "export_selected_children E coll_map [] coll_folder visited st = (0, visited, st)"
| "export_selected_children E coll_map (child # rest) coll_folder visited st =
     (if child \<in> fst ` set coll_map then
        (case export_selected_as_collections E coll_map child coll_folder visited st of
           (n1, visited1, st1) \<Rightarrow>
             (case export_selected_children E coll_map rest coll_folder visited1 st1 of
                (n2, visited2, st2) \<Rightarrow> (n1 + n2, visited2, st2)))
      else export_selected_children E coll_map rest coll_folder visited st)"

text \<open>\<^verbatim>\<open>export_selected_each_object\<close>: one export per object; \<^verbatim>\<open>continue\<close> skips an object
  whose folder cannot be prepared.\<close>

fun export_selected_each_object :: "ctx \<Rightarrow> obj list \<Rightarrow> string \<Rightarrow> state \<Rightarrow> nat \<times> state" where
  "export_selected_each_object E [] directory st = (0, st)"
| "export_selected_each_object E (ob # rest) directory st =
     (if make_separate_folders (opts E) then
        (case ensure_directory E (path_join (os E) directory (obj_name ob)) st of
           ((success, msg), st1) \<Rightarrow>
             if \<not> success
             then export_selected_each_object E rest directory (report ''ERROR'' msg st1)
             else
               (case count_export
                       (export_fbx E
                          (fbx_path E (path_join (os E) directory (obj_name ob)) (obj_name ob))
                          [ob] st1) of
                  (n1, st2) \<Rightarrow>
                    (case export_selected_each_object E rest directory st2 of
                       (n2, st3) \<Rightarrow> (n1 + n2, st3))))
      else
        (case count_export (export_fbx E (fbx_path E directory (obj_name ob)) [ob] st) of
           (n1, st2) \<Rightarrow>
             (case export_selected_each_object E rest directory st2 of
                (n2, st3) \<Rightarrow> (n1 + n2, st3))))"

text \<open>Python's \<^verbatim>\<open>str\<close> of a natural number, for the messages that show a count.\<close>

definition digit_char :: "nat \<Rightarrow> char" where
  "digit_char d = char_of (48 + d)"

function str_nat :: "nat \<Rightarrow> string" where
  "str_nat n = (if n < 10 then [digit_char n] else str_nat (n div 10) @ [digit_char (n mod 10)])"
  by pat_completeness auto
termination
  by (relation "measure id") auto

declare str_nat.simps [simp del]

text \<open>
  \<^verbatim>\<open>execute\<close>. The branches of the source are \<open>execute_collections\<close> (collection mode),
  \<open>execute_grouped\<close> (single mesh with separate folders), \<open>execute_single\<close> (single mesh)
  and the per-object loop; \<open>restore_selection\<close> and \<open>present_results\<close> are its last two
  steps. The call of \<^verbatim>\<open>check_path_exists\<close> in \<^verbatim>\<open>execute\<close> stands outside any
  \<^verbatim>\<open>try\<close>, so an exception it raises leaves \<^verbatim>\<open>execute\<close> (the result \<open>Inl\<close>).
\<close>

datatype status = FINISHED | CANCELLED

definition restore_selection :: "obj list \<Rightarrow> obj option \<Rightarrow> state \<Rightarrow> state" where
  "restore_selection orig_sel orig_active st =
     (let st1 = fold select_set orig_sel (deselect_all st)
      in case orig_active of
           None \<Rightarrow> st1
         | Some a \<Rightarrow> st1\<lparr>active_object := Some a\<rparr>)"

definition present_results :: "state \<Rightarrow> state" where
  "present_results st =
     (if length (exported_files st) > 0
      then st\<lparr>summary_dialogs := summary_dialogs st @ [exported_files st]\<rparr>
      else st)"

definition execute_collections :: "ctx \<Rightarrow> string \<Rightarrow> string set \<Rightarrow> state \<Rightarrow> state" where
  "execute_collections E directory allowed_types st =
     (let top_colls = gather_top_level_collections (layer_children (scn E));
          valid_colls = filter (\<lambda>c. allowed_visible allowed_types (all_objects c) \<noteq> []) top_colls
      in case export_collections E valid_colls directory allowed_types True st of
           (export_count, st1) \<Rightarrow>
             report ''INFO''
               (''Exported '' @ str_nat export_count @ '' FBX files (Collections mode).'') st1)"

definition is_child :: "collection \<Rightarrow> collection list \<Rightarrow> bool" where
  "is_child c all_colls =
     list_ex (\<lambda>other_coll. other_coll \<noteq> c
                \<and> coll_name c \<in> set (map coll_name (coll_children other_coll))) all_colls"

fun export_top_level ::
  "ctx \<Rightarrow> coll_map \<Rightarrow> collection list \<Rightarrow> string \<Rightarrow> collection list \<Rightarrow> state
     \<Rightarrow> nat \<times> collection list \<times> state" where
  "export_top_level E coll_map [] directory visited st = (0, visited, st)"
| "export_top_level E coll_map (top_coll # rest) directory visited st =
     (case export_selected_as_collections E coll_map top_coll directory visited st of
        (n1, visited1, st1) \<Rightarrow>
          (case export_top_level E coll_map rest directory visited1 st1 of
             (n2, visited2, st2) \<Rightarrow> (n1 + n2, visited2, st2)))"

definition execute_grouped :: "ctx \<Rightarrow> string \<Rightarrow> obj list \<Rightarrow> state \<Rightarrow> state" where
  "execute_grouped E directory sel_objects st =
     (let coll_map = gather_selected_by_collection (scn E) sel_objects;
          all_colls = map fst coll_map;
          top_level = filter (\<lambda>c. \<not> is_child c all_colls) all_colls
      in case export_top_level E coll_map top_level directory [] st of
           (export_count, visited, st1) \<Rightarrow>
             report ''INFO''
               (''Exported '' @ str_nat export_count
                  @ '' FBX files (Single Mesh + Separate Folders).'') st1)"

definition single_export_name :: "ctx \<Rightarrow> state \<Rightarrow> string" where
  "single_export_name E st =
     (case active_object st of
        None \<Rightarrow> ''combined_export''
      | Some a \<Rightarrow>
          (case users_collection (scn E) a of
             [] \<Rightarrow> ''combined_export''
           | c # others \<Rightarrow> coll_name c))"

definition execute_single :: "ctx \<Rightarrow> string \<Rightarrow> obj list \<Rightarrow> state \<Rightarrow> state" where
  "execute_single E directory sel_objects st =
     (let export_name = single_export_name E st
      in case export_fbx E (fbx_path E directory export_name) sel_objects st of
           (ok, st1) \<Rightarrow>
             report ''INFO''
               (''Exported single FBX with all selected objects: '' @ export_name @ ''.fbx'') st1)"

definition execute_each :: "ctx \<Rightarrow> string \<Rightarrow> obj list \<Rightarrow> state \<Rightarrow> state" where
  "execute_each E directory sel_objects st =
     (case export_selected_each_object E sel_objects directory st of
        (export_count, st1) \<Rightarrow>
          report ''INFO'' (''Exported '' @ str_nat export_count @ '' objects separately.'') st1)"

definition finish_run :: "obj list \<Rightarrow> obj option \<Rightarrow> state \<Rightarrow> exn + status \<times> state" where
  "finish_run orig_sel orig_active st =
     Inr (FINISHED, present_results (restore_selection orig_sel orig_active st))"

definition run_exports :: "ctx \<Rightarrow> string \<Rightarrow> state \<Rightarrow> exn + status \<times> state" where
  "run_exports E directory st =
     (let orig_sel = selected_objects st;
          orig_active = active_object st;
          allowed_types = get_object_types (opts E)
      in if export_mode (opts E) = ''COLLECTIONS''
         then finish_run orig_sel orig_active (execute_collections E directory allowed_types st)
         else
           (let sel_objects = filter (\<lambda>ob. obj_type ob \<in> allowed_types) (selected_objects st)
            in if sel_objects = []
               then Inr (CANCELLED, report ''WARNING'' ''No valid selected objects to export'' st)
               else if as_single_mesh (opts E) \<and> make_separate_folders (opts E)
               then finish_run orig_sel orig_active (execute_grouped E directory sel_objects st)
               else if as_single_mesh (opts E)
               then finish_run orig_sel orig_active (execute_single E directory sel_objects st)
               else finish_run orig_sel orig_active (execute_each E directory sel_objects st)))"

definition execute :: "ctx \<Rightarrow> string \<Rightarrow> state \<Rightarrow> exn + status \<times> state" where
  "execute E self_directory st0 =
     (let st = st0\<lparr>exported_files := []\<rparr>;
          directory = bpy_abspath (host E) self_directory
      in case check_path_exists (os E) (fs st) (recursion_limit (os E))
                (path_dirname (os E) directory) of
           Inl e \<Rightarrow> Inl e
         | Inr (exists, msg) \<Rightarrow>
             if \<not> exists then Inr (CANCELLED, report ''ERROR'' msg st)
             else
               (case ensure_directory E directory st of
                  ((success, msg'), st1) \<Rightarrow>
                    if \<not> success then Inr (CANCELLED, report ''ERROR'' msg' st1)
                    else run_exports E directory st1))"

section \<open>Example platforms, filesystems and scenes\<close>

text \<open>
  A POSIX filesystem in which the root (any non-empty run of slashes) and the listed
  paths exist, with the given refusals of directory creation.
\<close>

definition posix_root :: "string \<Rightarrow> bool" where
  "posix_root p = (p \<noteq> [] \<and> p = replicate (length p) slash)"

definition posix_fs :: "string list \<Rightarrow> (string \<Rightarrow> exn option) \<Rightarrow> filesystem" where
  "posix_fs dirs fault = \<lparr> present = (\<lambda>p. posix_root p \<or> p \<in> set dirs), mkdir_fault = fault \<rparr>"

text \<open>
  A Windows platform for paths of the form \<^verbatim>\<open>C:\dir\file\<close>: the part of \<^verbatim>\<open>ntpath\<close> that
  deals with drive letters and backslashes (UNC paths and forward slashes left out).
\<close>

definition backslash :: char where
  "backslash = CHR 0x5C"

definition nt_splitdrive :: "string \<Rightarrow> string \<times> string" where
  "nt_splitdrive p =
     (case p of
        c # d # rest \<Rightarrow> if d = CHR '':'' then ([c, d], rest) else ([], p)
      | _ \<Rightarrow> ([], p))"

definition nt_dirname :: "string \<Rightarrow> string" where
  "nt_dirname p =
     (case nt_splitdrive p of
        (drive, rest) \<Rightarrow>
          (let head = rev (dropWhile (\<lambda>c. c \<noteq> backslash) (rev rest));
               stripped = rev (dropWhile (\<lambda>c. c = backslash) (rev head))
           in drive @ (if stripped = [] then head else stripped)))"

definition nt_basename :: "string \<Rightarrow> string" where
  "nt_basename p = rev (takeWhile (\<lambda>c. c \<noteq> backslash) (rev (snd (nt_splitdrive p))))"

definition ascii_lower :: "char \<Rightarrow> char" where
  "ascii_lower c =
     (if 65 \<le> (of_char c :: nat) \<and> (of_char c :: nat) \<le> 90
      then char_of ((of_char c :: nat) + 32) else c)"

text \<open>
  \<^verbatim>\<open>ntpath.join\<close> of two paths: a rooted second path keeps its own drive, or the drive of
  the first path when it has none; a second path on another drive replaces the first;
  otherwise the second path is appended to the first, on the drive of the second path
  when it names one (the same drive in another case).
\<close>

definition nt_join :: "string \<Rightarrow> string \<Rightarrow> string" where
  "nt_join a b =
     (case (nt_splitdrive a, nt_splitdrive b) of
        ((result_drive, result_path), (p_drive, p_path)) \<Rightarrow>
          if p_path \<noteq> [] \<and> hd p_path = backslash
          then (if p_drive \<noteq> [] \<or> result_drive = [] then p_drive else result_drive) @ p_path
          else if p_drive \<noteq> [] \<and> p_drive \<noteq> result_drive
                  \<and> map ascii_lower p_drive \<noteq> map ascii_lower result_drive
          then p_drive @ p_path
          else
            (let drive = (if p_drive \<noteq> [] \<and> p_drive \<noteq> result_drive
                          then p_drive else result_drive);
                 path = (if result_path \<noteq> [] \<and> last result_path \<noteq> backslash
                         then result_path @ [backslash] else result_path) @ p_path
             in if path \<noteq> [] \<and> hd path \<noteq> backslash \<and> drive \<noteq> []
                   \<and> last drive \<noteq> CHR '':''
                then drive @ [backslash] @ path
                else drive @ path))"

definition windows :: platform where
  "windows = \<lparr> system = ''Windows'',
               path_dirname = nt_dirname,
               path_basename = nt_basename,
               path_join = nt_join,
               path_splitdrive = nt_splitdrive,
               recursion_limit = 1000 \<rparr>"

text \<open>The defaults of the add-on's options, as its property group declares them.\<close>

definition default_props :: props where
  "default_props =
     \<lparr> export_mode = ''COLLECTIONS'',
       export_mesh = True,
       export_armature = False,
       export_empty = False,
       export_camera = False,
       export_lamp = False,
       export_other = False,
       export_animations = False,
       apply_transform = True,
       export_smoothing = ''OFF'',
       embed_textures = False,
       axis_forward = ''-Z'',
       axis_up = ''Y'',
       apply_unit = True,
       use_space_transform = True,
       apply_scale_options = ''FBX_SCALE_ALL'',
       apply_modifiers = True,
       combine_nested_collections = False,
       separate_child_collections = False,
       as_single_mesh = True,
       make_separate_folders = False \<rparr>"

text \<open>
  The scene of the scenarios: the visible collection Props holds the mesh Cube and has
  the visible child collection Nested, which holds the mesh Sphere.
\<close>

definition cube :: obj where
  "cube = \<lparr> obj_name = ''Cube'', obj_type = ''MESH'', obj_hide_viewport = False \<rparr>"

definition sphere :: obj where
  "sphere = \<lparr> obj_name = ''Sphere'', obj_type = ''MESH'', obj_hide_viewport = False \<rparr>"

definition nested_coll :: collection where
  "nested_coll = Collection ''Nested'' False [sphere] []"

definition props_coll :: collection where
  "props_coll = Collection ''Props'' False [cube] [nested_coll]"

definition props_layers :: "layer_collection list" where
  "props_layers = [LayerCollection False props_coll [LayerCollection False nested_coll []]]"

definition props_scene :: scene where
  "props_scene =
     \<lparr> layer_children = props_layers,
       view_layer_objects = [cube, sphere],
       users_collection =
         (\<lambda>ob. if ob = cube then [props_coll] else if ob = sphere then [nested_coll] else []) \<rparr>"

text \<open>A host whose exporter and mode switch never fail, and a state with nothing selected.\<close>

definition willing_host :: blender where
  "willing_host =
     \<lparr> fbx_exporter = (\<lambda>job. None), mode_set_ok = (\<lambda>m. True), bpy_abspath = (\<lambda>p. p) \<rparr>"

definition idle_state :: "filesystem \<Rightarrow> state" where
  "idle_state files =
     \<lparr> fs = files, mode = ''OBJECT'', selected_objects = [], active_object = None,
       exported_files = [], reports = [], fbx_jobs = [], summary_dialogs = [] \<rparr>"

text \<open>
  The context of the scenarios (POSIX, the willing host, the scene above) under given
  options, and a filesystem in which \<^verbatim>\<open>/out\<close> exists and the system refuses to create
  \<^verbatim>\<open>/out/Props\<close>.
\<close>

definition props_ctx :: "props \<Rightarrow> ctx" where
  "props_ctx p = \<lparr> os = posix, host = willing_host, scn = props_scene, opts = p \<rparr>"

definition denied_fs :: filesystem where
  "denied_fs =
     posix_fs [''/out'']
       (\<lambda>p. if p = ''/out/Props'' then Some (PermissionError ''denied'') else None)"

definition denied_message :: string where
  "denied_message =
     ''Permission denied: Cannot create directory '' @ [apostrophe] @ ''/out/Props''
       @ [apostrophe]"

section \<open>Notions for stating properties of a run\<close>

text \<open>
  The record that a successful exporter invocation adds to the list of exported files,
  the invocations that succeeded, and the relation between a state and a later state of
  the same run: the later state has the same exporter invocations followed by new ones,
  the same exported files followed by the records of the new invocations that
  succeeded, in their order, and the same summary dialogs.
\<close>

definition job_record :: "ctx \<Rightarrow> fbx_job \<Rightarrow> string \<times> string" where
  "job_record E job = (path_basename (os E) (filepath (job_args job)), filepath (job_args job))"

definition job_succeeded :: "ctx \<Rightarrow> fbx_job \<Rightarrow> bool" where
  "job_succeeded E job = (fbx_exporter (host E) job = None)"

definition run_extends :: "ctx \<Rightarrow> state \<Rightarrow> state \<Rightarrow> bool" where
  "run_extends E st st' =
     (take (length (fbx_jobs st)) (fbx_jobs st') = fbx_jobs st
      \<and> exported_files st'
          = exported_files st
            @ map (job_record E)
                (filter (job_succeeded E) (drop (length (fbx_jobs st)) (fbx_jobs st')))
      \<and> summary_dialogs st' = summary_dialogs st)"



section \<open>Properties of the Path Helper\<close>

lemma check_path_exists_true:
  "check_path_exists pf files depth path = Inr (True, msg) \<Longrightarrow> present files path \<and> msg = []"
proof (induction depth arbitrary: path)
  case 0
  then show ?case by simp
next
  case (Suc depth)
  then show ?case by (auto split: if_splits)
qed

lemma check_path_exists_present:
  "present files path \<Longrightarrow> check_path_exists pf files (Suc depth) path = Inr (True, [])"
  by simp

lemma check_path_exists_returns:
  assumes shorter: "\<And>q. \<not> present files q \<Longrightarrow> path_dirname pf q \<noteq> [] \<Longrightarrow> length (path_dirname pf q) < length q"
  shows "length path < depth \<Longrightarrow> \<exists>msg. check_path_exists pf files depth path = Inr (present files path, msg)"
proof (induction depth arbitrary: path)
  case 0
  then show ?case by simp
next
  case (Suc depth)
  show ?case
  proof (cases "present files path")
    case True
    then show ?thesis by simp
  next
    case absent: False
    show ?thesis
    proof (cases "path_dirname pf path \<noteq> [] \<and> \<not> present files (path_dirname pf path)")
      case True
      have "length (path_dirname pf path) < length path"
        using shorter absent True by simp
      then have "length (path_dirname pf path) < depth" using Suc.prems by simp
      from Suc.IH[OF this] True absent show ?thesis by auto
    next
      case False
      then show ?thesis using absent by auto
    qed
  qed
qed

lemma posix_head_length: "length (posix_head p) \<le> length p"
  unfolding posix_head_def
  by (metis length_dropWhile_le length_rev)

lemma rstrip_slash_length: "length (rstrip_slash p) \<le> length p"
  unfolding rstrip_slash_def
  by (metis length_dropWhile_le length_rev)

lemma rstrip_slash_shorter:
  assumes "s \<noteq> []" "last s = slash"
  shows "length (rstrip_slash s) < length s"
proof -
  obtain ys where s: "s = ys @ [slash]"
    using assms by (metis append_butlast_last_id)
  have "length (dropWhile (\<lambda>c. c = slash) (rev ys)) \<le> length (rev ys)"
    by (rule length_dropWhile_le)
  then show ?thesis by (simp add: rstrip_slash_def s)
qed

lemma posix_head_last: "posix_head p \<noteq> [] \<Longrightarrow> last (posix_head p) = slash"
  unfolding posix_head_def
  by (metis (mono_tags, lifting) hd_dropWhile last_rev rev_is_Nil_conv rev_rev_ident)

lemma posix_dirname_shorter:
  assumes "q \<noteq> []" "q \<noteq> replicate (length q) slash"
  shows "length (posix_dirname q) < length q"
proof (cases "posix_head q = []")
  case True
  then show ?thesis using assms by (simp add: posix_dirname_def)
next
  case False
  show ?thesis
  proof (cases "posix_head q = replicate (length (posix_head q)) slash")
    case True
    then have "posix_head q \<noteq> q" using assms by metis
    moreover have "\<exists>t. q = posix_head q @ t"
      unfolding posix_head_def
      by (metis rev_append rev_rev_ident takeWhile_dropWhile_id)
    ultimately obtain t where "q = posix_head q @ t" "t \<noteq> []" by force
    then have "length q = length (posix_head q) + length t" "0 < length t"
      by (metis length_append) (simp add: \<open>t \<noteq> []\<close>)
    then have "length (posix_head q) < length q" by simp
    then show ?thesis using True by (simp add: posix_dirname_def Let_def)
  next
    case nonroot: False
    have "length (rstrip_slash (posix_head q)) < length (posix_head q)"
      using False posix_head_last rstrip_slash_shorter by blast
    then show ?thesis using nonroot False posix_head_length[of q]
      by (simp add: posix_dirname_def Let_def)
  qed
qed


lemma check_path_exists_verdict:
  "check_path_exists pf files depth path = Inr (b, msg) \<Longrightarrow> b = present files path"
proof (induction depth arbitrary: path)
  case 0
  then show ?case by simp
next
  case (Suc depth)
  then show ?case by (auto split: if_splits)
qed

lemma posix_fs_shorter:
  "\<not> present (posix_fs dirs fault) q \<Longrightarrow> path_dirname posix q \<noteq> []
     \<Longrightarrow> length (path_dirname posix q) < length q"
proof -
  assume a: "\<not> present (posix_fs dirs fault) q" and b: "path_dirname posix q \<noteq> []"
  from a have "q \<noteq> replicate (length q) slash \<or> q = []"
    by (auto simp: posix_fs_def posix_root_def)
  moreover have "q \<noteq> []" using b by (auto simp: posix_def posix_dirname_def posix_head_def)
  ultimately show ?thesis using posix_dirname_shorter[of q] by (simp add: posix_def)
qed

text \<open>
  Claim C10. For every path, the boolean that \<^verbatim>\<open>check_path_exists\<close> returns is true exactly
  when the path itself exists: with at least one frame left, a true verdict is returned
  if and only if the path exists, and every verdict that is returned says whether the
  path exists; climbing to the parents of a missing path only chooses the message.
  The call does return a verdict when every missing path with a non-empty parent name
  has a strictly shorter parent name (as on POSIX, where the root exists) and more
  frames are left than the path has characters.
\<close>

theorem check_path_exists_true_iff_present:
  "0 < depth \<Longrightarrow>
     ((\<exists>msg. check_path_exists pf files depth path = Inr (True, msg)) \<longleftrightarrow> present files path)
   \<and> (\<forall>b msg. check_path_exists pf files depth path = Inr (b, msg) \<longrightarrow> b = present files path)
   \<and> ((\<forall>q. \<not> present files q \<longrightarrow> path_dirname pf q \<noteq> []
            \<longrightarrow> length (path_dirname pf q) < length q)
        \<longrightarrow> length path < depth
        \<longrightarrow> (\<exists>msg. check_path_exists pf files depth path = Inr (present files path, msg)))"
proof -
  assume d: "0 < depth"
  then obtain n where n: "depth = Suc n" by (cases depth) auto
  have 1: "(\<exists>msg. check_path_exists pf files depth path = Inr (True, msg)) \<longleftrightarrow> present files path"
    using check_path_exists_true[of pf files depth path] check_path_exists_present[of files path pf n] n
    by blast
  have 2: "\<forall>b msg. check_path_exists pf files depth path = Inr (b, msg) \<longrightarrow> b = present files path"
    using check_path_exists_verdict by blast
  have 3: "(\<forall>q. \<not> present files q \<longrightarrow> path_dirname pf q \<noteq> []
            \<longrightarrow> length (path_dirname pf q) < length q)
        \<longrightarrow> length path < depth
        \<longrightarrow> (\<exists>msg. check_path_exists pf files depth path = Inr (present files path, msg))"
    using check_path_exists_returns[of files pf path depth] by blast
  from 1 2 3 show ?thesis by blast
qed

theorem check_path_exists_true_iff_present_witness:
  "(0::nat) < 1000
   \<and> \<not> present (posix_fs [''/tmp''] (\<lambda>p. None)) ''/tmp/a/b''
   \<and> present (posix_fs [''/tmp''] (\<lambda>p. None)) ''/tmp''
   \<and> length ''/tmp/a/b'' < (1000::nat)
   \<and> (\<exists>msg. check_path_exists posix (posix_fs [''/tmp''] (\<lambda>p. None)) 1000 ''/tmp/a/b''
               = Inr (False, msg))
   \<and> (\<exists>msg. check_path_exists posix (posix_fs [''/tmp''] (\<lambda>p. None)) 1000 ''/tmp''
               = Inr (True, msg))"
proof -
  let ?fs = "posix_fs [''/tmp''] (\<lambda>p. None)"
  have d: "(0::nat) < 1000" by simp
  have sh: "\<forall>q. \<not> present ?fs q \<longrightarrow> path_dirname posix q \<noteq> []
            \<longrightarrow> length (path_dirname posix q) < length q"
    using posix_fs_shorter by blast
  have a: "\<not> present ?fs ''/tmp/a/b''" by (simp add: posix_fs_def posix_root_def slash_def)
  have t: "present ?fs ''/tmp''" by (simp add: posix_fs_def)
  have l: "length ''/tmp/a/b'' < (1000::nat)" by simp
  from check_path_exists_true_iff_present[OF d, of posix ?fs "''/tmp/a/b''"] sh l a
  have r1: "\<exists>msg. check_path_exists posix ?fs 1000 ''/tmp/a/b'' = Inr (False, msg)"
    by metis
  from check_path_exists_true_iff_present[OF d, of posix ?fs "''/tmp''"] t
  have r2: "\<exists>msg. check_path_exists posix ?fs 1000 ''/tmp'' = Inr (True, msg)"
    by blast
  from d a t l r1 r2 show ?thesis by blast
qed

lemma check_path_exists_climb:
  "k < depth
   \<Longrightarrow> \<forall>i \<le> k. \<not> present files ((path_dirname pf ^^ i) path)
                 \<and> \<not> drive_missing pf files ((path_dirname pf ^^ i) path)
   \<Longrightarrow> \<forall>i. 0 < i \<and> i \<le> k \<longrightarrow> (path_dirname pf ^^ i) path \<noteq> []
   \<Longrightarrow> (path_dirname pf ^^ Suc k) path = [] \<or> present files ((path_dirname pf ^^ Suc k) path)
   \<Longrightarrow> check_path_exists pf files depth path
         = Inr (False, path_message ((path_dirname pf ^^ k) path))"
proof (induction k arbitrary: depth path)
  case 0
  then obtain d where d: "depth = Suc d" by (cases depth) auto
  from 0 show ?case by (auto simp: d)
next
  case (Suc k)
  then obtain d where d: "depth = Suc d" and kd: "k < d" by (cases depth) auto
  let ?parent = "path_dirname pf path"
  have here: "\<not> present files path" "\<not> drive_missing pf files path"
    using Suc.prems(2)[rule_format, of 0] by simp_all
  have parent: "?parent \<noteq> []" "\<not> present files ?parent"
    using Suc.prems(2)[rule_format, of 1] Suc.prems(3)[rule_format, of 1] by simp_all
  have shift: "\<And>i. (path_dirname pf ^^ i) ?parent = (path_dirname pf ^^ Suc i) path"
    by (simp add: funpow_swap1)
  have "check_path_exists pf files d ?parent
          = Inr (False, path_message ((path_dirname pf ^^ k) ?parent))"
  proof (rule Suc.IH[OF kd])
    show "\<forall>i\<le>k. \<not> present files ((path_dirname pf ^^ i) ?parent)
             \<and> \<not> drive_missing pf files ((path_dirname pf ^^ i) ?parent)"
      using Suc.prems(2) unfolding shift by auto
    show "\<forall>i. 0 < i \<and> i \<le> k \<longrightarrow> (path_dirname pf ^^ i) ?parent \<noteq> []"
      using Suc.prems(3) unfolding shift by auto
    show "(path_dirname pf ^^ Suc k) ?parent = []
            \<or> present files ((path_dirname pf ^^ Suc k) ?parent)"
      using Suc.prems(4) unfolding shift by simp
  qed
  then show ?case using here parent by (simp add: d shift)
qed

text \<open>
  Claim C3, as the code has it. \<^verbatim>\<open>check_path_exists\<close> returns \<open>(True, "")\<close> at once for a
  path that exists. For a missing path on Windows whose non-empty drive is missing it
  returns \<open>False\<close> with the drive-not-found reason. Otherwise it climbs from parent to
  parent while the parent has a non-empty name and is missing, and returns \<open>False\<close> with
  the reason "Path ... is not accessible." for the last path of the climb, the one
  whose parent exists or has the empty name: the nearest existing ancestor decides the
  message only, and a missing path is never reported reachable.
\<close>

theorem check_path_exists_cases:
  "(present files path \<longrightarrow> check_path_exists pf files (Suc depth) path = Inr (True, []))
   \<and> (\<not> present files path \<and> drive_missing pf files path
        \<longrightarrow> check_path_exists pf files (Suc depth) path
              = Inr (False, drive_message (fst (path_splitdrive pf path))))
   \<and> (k < frames
        \<and> (\<forall>i \<le> k. \<not> present files ((path_dirname pf ^^ i) path)
                     \<and> \<not> drive_missing pf files ((path_dirname pf ^^ i) path))
        \<and> (\<forall>i. 0 < i \<and> i \<le> k \<longrightarrow> (path_dirname pf ^^ i) path \<noteq> [])
        \<and> ((path_dirname pf ^^ Suc k) path = [] \<or> present files ((path_dirname pf ^^ Suc k) path))
        \<longrightarrow> check_path_exists pf files frames path
              = Inr (False, path_message ((path_dirname pf ^^ k) path)))"
  using check_path_exists_climb[of k frames files pf path] by simp

text \<open>
  Claim C3 as the specification words it, with reachability reported from the nearest
  existing ancestor, fails: \<^verbatim>\<open>/tmp\<close> exists and is the parent of the missing \<^verbatim>\<open>/tmp/out\<close>;
  the function is true on \<^verbatim>\<open>/tmp\<close> and false on \<^verbatim>\<open>/tmp/out\<close>.
\<close>

theorem check_path_exists_parent_counterexample:
  "\<not> present (posix_fs [''/tmp''] (\<lambda>p. None)) ''/tmp/out''
   \<and> path_dirname posix ''/tmp/out'' = ''/tmp''
   \<and> present (posix_fs [''/tmp''] (\<lambda>p. None)) ''/tmp''
   \<and> check_path_exists posix (posix_fs [''/tmp''] (\<lambda>p. None)) (recursion_limit posix) ''/tmp''
       = Inr (True, [])
   \<and> check_path_exists posix (posix_fs [''/tmp''] (\<lambda>p. None)) (recursion_limit posix) ''/tmp/out''
       = Inr (False, path_message ''/tmp/out'')"
  by code_simp

theorem check_path_exists_cases_witness:
  "check_path_exists posix (posix_fs [''/tmp''] (\<lambda>p. None)) (Suc 0) ''/tmp'' = Inr (True, [])
   \<and> drive_missing windows
        \<lparr> present = (\<lambda>p. p \<in> set [''C:'', ''C:'' @ [backslash]]), mkdir_fault = (\<lambda>p. None) \<rparr>
        (''D:'' @ [backslash] @ ''out'')
   \<and> check_path_exists windows
        \<lparr> present = (\<lambda>p. p \<in> set [''C:'', ''C:'' @ [backslash]]), mkdir_fault = (\<lambda>p. None) \<rparr>
        (Suc 0) (''D:'' @ [backslash] @ ''out'')
       = Inr (False, drive_message ''D:'')
   \<and> check_path_exists posix (posix_fs [''/tmp''] (\<lambda>p. None)) 1000 ''/tmp/a/b/c''
       = Inr (False, path_message ''/tmp/a'')"
proof -
  let ?fs = "posix_fs [''/tmp''] (\<lambda>p. None)"
  let ?wfs = "\<lparr> present = (\<lambda>p. p \<in> set [''C:'', ''C:'' @ [backslash]]), mkdir_fault = (\<lambda>p. None) \<rparr>"
  let ?wp = "''D:'' @ [backslash] @ ''out''"
  have t: "present ?fs ''/tmp''" by (simp add: posix_fs_def)
  have dm: "drive_missing windows ?wfs ?wp" and np: "\<not> present ?wfs ?wp"
    and dr: "fst (path_splitdrive windows ?wp) = ''D:''"
    by (simp_all add: drive_missing_def windows_def nt_splitdrive_def backslash_def)
  have ups: "(path_dirname posix ^^ 0) ''/tmp/a/b/c'' = ''/tmp/a/b/c''"
    "(path_dirname posix ^^ Suc 0) ''/tmp/a/b/c'' = ''/tmp/a/b''"
    "(path_dirname posix ^^ 2) ''/tmp/a/b/c'' = ''/tmp/a''"
    "(path_dirname posix ^^ Suc 2) ''/tmp/a/b/c'' = ''/tmp''"
    by code_simp+
  have absent: "\<not> present ?fs ''/tmp/a/b/c''" "\<not> present ?fs ''/tmp/a/b''" "\<not> present ?fs ''/tmp/a''"
    by (simp_all add: posix_fs_def posix_root_def slash_def)
  have nd: "\<And>q. \<not> drive_missing posix ?fs q" by (simp add: drive_missing_def posix_def)
  have le2: "\<And>i::nat. i \<le> 2 \<longleftrightarrow> i = 0 \<or> i = Suc 0 \<or> i = 2" by auto
  have h1: "\<forall>i \<le> 2. \<not> present ?fs ((path_dirname posix ^^ i) ''/tmp/a/b/c'')
                     \<and> \<not> drive_missing posix ?fs ((path_dirname posix ^^ i) ''/tmp/a/b/c'')"
    using ups absent nd by (auto simp: le2)
  have h2: "\<forall>i. 0 < i \<and> i \<le> 2 \<longrightarrow> (path_dirname posix ^^ i) ''/tmp/a/b/c'' \<noteq> []"
    using ups by (auto simp: le2)
  have h3: "present ?fs ((path_dirname posix ^^ Suc 2) ''/tmp/a/b/c'')"
    using ups t by simp
  have k: "(2::nat) < 1000" by simp
  note c1 = check_path_exists_cases[of ?fs "''/tmp''" posix 0 0 0]
  note c2 = check_path_exists_cases[of ?wfs ?wp windows 0 0 0]
  note c3 = check_path_exists_cases[of ?fs "''/tmp/a/b/c''" posix 0 2 1000]
  from c1 t have r1: "check_path_exists posix ?fs (Suc 0) ''/tmp'' = Inr (True, [])" by blast
  from c2 dm np dr have r2: "check_path_exists windows ?wfs (Suc 0) ?wp = Inr (False, drive_message ''D:'')"
    by metis
  from c3 h1 h2 h3 k have r3: "check_path_exists posix ?fs 1000 ''/tmp/a/b/c''
       = Inr (False, path_message ((path_dirname posix ^^ 2) ''/tmp/a/b/c''))"
    by blast
  from r1 r2 r3 dm ups show ?thesis by simp
qed

lemma creation_failure_fails: "fst (creation_failure p e) = False"
  by (cases e) simp_all

lemma creation_failure_not_True: "creation_failure p e \<noteq> (True, m)"
  using creation_failure_fails[of p e] by auto

lemma ensure_directory_exists_success:
  assumes "ensure_directory_exists pf files p = ((True, m), files')"
  shows "m = [] \<and> present files' p \<and> present files' (path_dirname pf p)
         \<and> recursion_limit pf \<noteq> 0 \<and> mkdir_fault files' = mkdir_fault files
         \<and> (\<forall>q. present files q \<longrightarrow> present files' q)"
proof -
  obtain b msg where c: "check_path_exists pf files (recursion_limit pf) (path_dirname pf p) = Inr (b, msg)"
    using assms
    by (cases "check_path_exists pf files (recursion_limit pf) (path_dirname pf p)")
       (auto simp: ensure_directory_exists_def creation_failure_not_True)
  with assms have b: "b" by (auto simp: ensure_directory_exists_def split: if_splits)
  with c have par: "present files (path_dirname pf p)"
    using check_path_exists_true[of pf files "recursion_limit pf" "path_dirname pf p" msg]
    by auto
  have lim: "recursion_limit pf \<noteq> 0"
    using c by (cases "recursion_limit pf") auto
  show ?thesis
    using assms c b par lim
    by (auto simp: ensure_directory_exists_def os_makedirs_def creation_failure_not_True
             split: if_splits option.splits)
qed

text \<open>
  Claim C4, as the code has it. When the parent of the path is reachable and the
  directory exists already or the system does not refuse to create it,
  \<^verbatim>\<open>ensure_directory_exists\<close> succeeds with the empty message; and whenever a call
  succeeds, a second call on the filesystem it leaves succeeds too, with the empty
  message, and changes nothing.
\<close>

theorem ensure_directory_exists_idempotent:
  "(check_path_exists pf files (recursion_limit pf) (path_dirname pf p) = Inr (True, m)
      \<and> (present files p \<or> mkdir_fault files p = None)
      \<longrightarrow> fst (ensure_directory_exists pf files p) = (True, []))
   \<and> (fst (fst (ensure_directory_exists pf files p))
      \<longrightarrow> ensure_directory_exists pf (snd (ensure_directory_exists pf files p)) p
            = ((True, []), snd (ensure_directory_exists pf files p)))"
proof -
  have first: "fst (ensure_directory_exists pf files p) = (True, [])"
    if "check_path_exists pf files (recursion_limit pf) (path_dirname pf p) = Inr (True, m)"
      and "present files p \<or> mkdir_fault files p = None"
    using that by (auto simp: ensure_directory_exists_def os_makedirs_def)
  have second: "ensure_directory_exists pf (snd (ensure_directory_exists pf files p)) p
            = ((True, []), snd (ensure_directory_exists pf files p))"
    if ok: "fst (fst (ensure_directory_exists pf files p))"
  proof -
    obtain msg files' where r: "ensure_directory_exists pf files p = ((True, msg), files')"
      using ok by (cases "ensure_directory_exists pf files p") auto
    from ensure_directory_exists_success[OF r]
    have here: "present files' p" and par: "present files' (path_dirname pf p)"
      and lim: "recursion_limit pf \<noteq> 0" by auto
    from lim obtain n where n: "recursion_limit pf = Suc n" by (cases "recursion_limit pf") auto
    have "check_path_exists pf files' (recursion_limit pf) (path_dirname pf p) = Inr (True, [])"
      using par by (simp add: n)
    then have "ensure_directory_exists pf files' p = ((True, []), files')"
      using here by (simp add: ensure_directory_exists_def)
    then show ?thesis using r by simp
  qed
  from first second show ?thesis by blast
qed

text \<open>
  Claim C4 as the specification words it fails, since a reachable parent alone is not
  enough for the first call: \<^verbatim>\<open>/ro\<close> exists, the system
  refuses to create \<^verbatim>\<open>/ro/out\<close>, and the call reports the denied permission.
\<close>

theorem ensure_directory_exists_refused_counterexample:
  "check_path_exists posix (posix_fs [''/ro''] (\<lambda>p. Some (PermissionError ''denied'')))
       (recursion_limit posix) (path_dirname posix ''/ro/out'') = Inr (True, [])
   \<and> fst (ensure_directory_exists posix
             (posix_fs [''/ro''] (\<lambda>p. Some (PermissionError ''denied''))) ''/ro/out'')
       = (False, ''Permission denied: Cannot create directory '' @ [apostrophe] @ ''/ro/out''
                    @ [apostrophe])"
  by code_simp

theorem ensure_directory_exists_idempotent_witness:
  "check_path_exists posix (posix_fs [''/tmp''] (\<lambda>p. None)) (recursion_limit posix)
       (path_dirname posix ''/tmp/out'') = Inr (True, [])
   \<and> mkdir_fault (posix_fs [''/tmp''] (\<lambda>p. None)) ''/tmp/out'' = None
   \<and> fst (ensure_directory_exists posix (posix_fs [''/tmp''] (\<lambda>p. None)) ''/tmp/out'') = (True, [])
   \<and> fst (ensure_directory_exists posix
            (snd (ensure_directory_exists posix (posix_fs [''/tmp''] (\<lambda>p. None)) ''/tmp/out''))
            ''/tmp/out'') = (True, [])"
proof -
  let ?fs = "posix_fs [''/tmp''] (\<lambda>p. None)"
  have c: "check_path_exists posix ?fs (recursion_limit posix) (path_dirname posix ''/tmp/out'')
             = Inr (True, [])"
    by code_simp
  have f: "mkdir_fault ?fs ''/tmp/out'' = None" by (simp add: posix_fs_def)
  note th = ensure_directory_exists_idempotent[of posix ?fs "''/tmp/out''" "[]"]
  from th c f have r1: "fst (ensure_directory_exists posix ?fs ''/tmp/out'') = (True, [])"
    by blast
  then have "fst (fst (ensure_directory_exists posix ?fs ''/tmp/out''))" by simp
  with th have "fst (ensure_directory_exists posix
            (snd (ensure_directory_exists posix ?fs ''/tmp/out'')) ''/tmp/out'') = (True, [])"
    by simp
  with c f r1 show ?thesis by blast
qed

section \<open>Properties of the Scene Traversal\<close>

lemma walk_dom:
  "dom (snd (recurse_layer_coll n p w)) = dom (snd w) \<union> set (visible_at n (p \<noteq> None))"
  "dom (snd (recurse_layer_colls ns p w)) = dom (snd w) \<union> set (visible_ats ns (p \<noteq> None))"
proof (induction n p w and ns p w rule: recurse_layer_coll_recurse_layer_colls.induct)
  case (1 hide coll children parent_coll all_visible child_to_parent)
  then show ?case by (auto split: option.splits)
next
  case (2 parent_coll w)
  then show ?case by simp
next
  case (3 child rest parent_coll w)
  then show ?case by auto
qed

lemma set_set_add: "set (set_add x xs) = insert x (set xs)"
  by (auto simp: set_add_def)

lemma distinct_set_add: "distinct xs \<Longrightarrow> distinct (set_add x xs)"
  by (auto simp: set_add_def)

lemma walk_distinct:
  "distinct (fst w) \<Longrightarrow> distinct (fst (recurse_layer_coll n p w))"
  "distinct (fst w) \<Longrightarrow> distinct (fst (recurse_layer_colls ns p w))"
proof (induction n p w and ns p w rule: recurse_layer_coll_recurse_layer_colls.induct)
  case (1 hide coll children parent_coll all_visible child_to_parent)
  then show ?case by (auto simp: distinct_set_add)
next
  case (2 parent_coll w)
  then show ?case by simp
next
  case (3 child rest parent_coll w)
  then show ?case by auto
qed

lemma walk_visible:
  "set (fst (recurse_layer_coll n p w))
     = set (fst w) \<union> set (map lc_collection (filter lc_visible (layer_nodes n)))"
  "set (fst (recurse_layer_colls ns p w))
     = set (fst w) \<union> set (map lc_collection (filter lc_visible (layer_nodes_list ns)))"
proof (induction n p w and ns p w rule: recurse_layer_coll_recurse_layer_colls.induct)
  case (1 hide coll children parent_coll all_visible child_to_parent)
  then show ?case by (auto simp: set_set_add lc_visible_def)
next
  case (2 parent_coll w)
  then show ?case by simp
next
  case (3 child rest parent_coll w)
  then show ?case by auto
qed

lemma visible_at_mono:
  "set (visible_at n False) \<subseteq> set (visible_at n below)"
  "set (visible_ats ns False) \<subseteq> set (visible_ats ns below)"
  by (induction n below and ns below rule: visible_at_visible_ats.induct) auto

lemma visible_below_subset:
  "m \<in> set (layer_nodes n) \<Longrightarrow> set (visible_below m) \<subseteq> set (visible_at n below)"
  "m \<in> set (layer_nodes_list ns) \<Longrightarrow> set (visible_below m) \<subseteq> set (visible_ats ns below)"
proof (induction n below and ns below rule: visible_at_visible_ats.induct)
  case (1 hide coll children below)
  then show ?case by (auto simp: visible_below_def)
next
  case (2 below)
  then show ?case by simp
next
  case (3 child rest below)
  then show ?case by auto
qed

text \<open>
  Claim C1. Every collection that \<^verbatim>\<open>gather_top_level_collections\<close> returns has no
  recorded parent in the walk of the layer hierarchy, and is not the collection of any
  visible node below another node; in particular no returned collection is a
  descendant of another returned collection in the visibility-filtered hierarchy. Each
  returned collection is the collection of a visible node, and none is returned twice.
\<close>

theorem top_level_collections_are_roots:
  assumes "b \<in> set (gather_top_level_collections roots)"
  shows "snd (layer_walk roots) b = None
     \<and> (\<forall>n \<in> set (layer_nodes_list roots). b \<notin> set (visible_below n))
     \<and> (\<forall>a \<in> set (gather_top_level_collections roots).
           \<forall>n \<in> set (layer_nodes_list roots). lc_collection n = a \<longrightarrow> b \<notin> set (visible_below n))
     \<and> (\<exists>n \<in> set (layer_nodes_list roots). lc_visible n \<and> lc_collection n = b)
     \<and> distinct (gather_top_level_collections roots)"
proof -
  obtain vis c2p where w: "layer_walk roots = (vis, c2p)" by (cases "layer_walk roots")
  from assms w have b: "b \<in> set vis" "c2p b = None"
    by (auto simp: gather_top_level_collections_def)
  have "dom c2p = set (visible_ats roots False)"
    using walk_dom(2)[of roots None "([], Map.empty)"] w by (simp add: layer_walk_def)
  with b have nb: "b \<notin> set (visible_ats roots False)" by auto
  have below: "\<forall>n \<in> set (layer_nodes_list roots). b \<notin> set (visible_below n)"
    using nb visible_below_subset(2)[of _ roots False] by blast
  have "set vis = set (map lc_collection (filter lc_visible (layer_nodes_list roots)))"
    using walk_visible(2)[of roots None "([], Map.empty)"] w by (simp add: layer_walk_def)
  with b have ex: "\<exists>n \<in> set (layer_nodes_list roots). lc_visible n \<and> lc_collection n = b" by auto
  have "distinct vis"
    using walk_distinct(2)[of "([], Map.empty)" roots None] w by (simp add: layer_walk_def)
  then have "distinct (gather_top_level_collections roots)"
    using w by (simp add: gather_top_level_collections_def)
  with b w below ex show ?thesis by simp
qed

theorem top_level_collections_are_roots_witness:
  "props_coll \<in> set (gather_top_level_collections props_layers)
   \<and> nested_coll \<notin> set (gather_top_level_collections props_layers)
   \<and> snd (layer_walk props_layers) props_coll = None
   \<and> props_coll \<notin> set (visible_below (hd props_layers))
   \<and> distinct (gather_top_level_collections props_layers)"
proof -
  have g: "gather_top_level_collections props_layers = [props_coll]" by code_simp
  then have m: "props_coll \<in> set (gather_top_level_collections props_layers)" by simp
  have n: "hd props_layers \<in> set (layer_nodes_list props_layers)" by code_simp
  have ne: "nested_coll \<noteq> props_coll" by code_simp
  from top_level_collections_are_roots[OF m] n g ne show ?thesis by auto
qed

section \<open>Properties of the Export Invoker\<close>

lemma run_extendsI:
  "fbx_jobs st' = fbx_jobs st @ new
   \<Longrightarrow> exported_files st' = exported_files st @ map (job_record E) (filter (job_succeeded E) new)
   \<Longrightarrow> summary_dialogs st' = summary_dialogs st
   \<Longrightarrow> run_extends E st st'"
  by (simp add: run_extends_def)

lemma run_extendsD:
  assumes "run_extends E st st'"
  shows "\<exists>new. fbx_jobs st' = fbx_jobs st @ new
     \<and> exported_files st' = exported_files st @ map (job_record E) (filter (job_succeeded E) new)
     \<and> summary_dialogs st' = summary_dialogs st"
proof -
  let ?new = "drop (length (fbx_jobs st)) (fbx_jobs st')"
  have "fbx_jobs st' = fbx_jobs st @ ?new"
    using assms by (metis append_take_drop_id run_extends_def)
  then show ?thesis using assms unfolding run_extends_def by blast
qed

lemma run_extends_frame:
  "fbx_jobs st' = fbx_jobs st \<Longrightarrow> exported_files st' = exported_files st
   \<Longrightarrow> summary_dialogs st' = summary_dialogs st \<Longrightarrow> run_extends E st st'"
  by (simp add: run_extends_def)

lemma run_extends_refl: "run_extends E st st"
  by (simp add: run_extends_frame)

lemma run_extends_trans:
  assumes "run_extends E st st1" "run_extends E st1 st2"
  shows "run_extends E st st2"
proof -
  from run_extendsD[OF assms(1)] obtain n1 where 1: "fbx_jobs st1 = fbx_jobs st @ n1"
    "exported_files st1 = exported_files st @ map (job_record E) (filter (job_succeeded E) n1)"
    "summary_dialogs st1 = summary_dialogs st" by blast
  from run_extendsD[OF assms(2)] obtain n2 where 2: "fbx_jobs st2 = fbx_jobs st1 @ n2"
    "exported_files st2 = exported_files st1 @ map (job_record E) (filter (job_succeeded E) n2)"
    "summary_dialogs st2 = summary_dialogs st1" by blast
  show ?thesis
    by (rule run_extendsI[of _ _ "n1 @ n2"]) (simp_all add: 1 2)
qed

lemma report_fields [simp]:
  "fs (report s m st) = fs st"
  "mode (report s m st) = mode st"
  "selected_objects (report s m st) = selected_objects st"
  "active_object (report s m st) = active_object st"
  "exported_files (report s m st) = exported_files st"
  "reports (report s m st) = reports st @ [(s, m)]"
  "fbx_jobs (report s m st) = fbx_jobs st"
  "summary_dialogs (report s m st) = summary_dialogs st"
  by (simp_all add: report_def)

lemma fold_select_set:
  "fold select_set xs st = st\<lparr>selected_objects := fold set_add xs (selected_objects st)\<rparr>"
  by (induction xs arbitrary: st) (simp_all add: select_set_def)

lemma ensure_directory_snd:
  "snd (ensure_directory E p st) = st\<lparr>fs := snd (ensure_directory_exists (os E) (fs st) p)\<rparr>"
  by (simp add: ensure_directory_def split: prod.splits)

lemma ensure_directory_fst:
  "fst (ensure_directory E p st) = fst (ensure_directory_exists (os E) (fs st) p)"
  by (simp add: ensure_directory_def split: prod.splits)

lemma select_only_fields [simp]:
  "fs (select_only E objects st) = fs st"
  "mode (select_only E objects st) = mode st"
  "exported_files (select_only E objects st) = exported_files st"
  "reports (select_only E objects st) = reports st"
  "fbx_jobs (select_only E objects st) = fbx_jobs st"
  "summary_dialogs (select_only E objects st) = summary_dialogs st"
  by (simp_all add: select_only_def Let_def fold_select_set deselect_all_def split: list.splits)

lemma enter_object_mode_fields [simp]:
  "fs (enter_object_mode E st) = fs st"
  "selected_objects (enter_object_mode E st) = selected_objects st"
  "active_object (enter_object_mode E st) = active_object st"
  "exported_files (enter_object_mode E st) = exported_files st"
  "reports (enter_object_mode E st) = reports st"
  "fbx_jobs (enter_object_mode E st) = fbx_jobs st"
  "summary_dialogs (enter_object_mode E st) = summary_dialogs st"
  by (simp_all add: enter_object_mode_def)

lemma filepath_fbx_arguments [simp]: "filepath (fbx_arguments p path) = path"
  by (simp add: fbx_arguments_def)

lemma call_exporter_extends: "run_extends E st (snd (call_exporter E path st))"
proof -
  let ?job = "\<lparr> job_args = fbx_arguments (opts E) path, job_objects = selected_objects st \<rparr>"
  show ?thesis
  proof (cases "fbx_exporter (host E) ?job")
    case None
    show ?thesis
      by (rule run_extendsI[of _ _ "[?job]"])
         (simp_all add: call_exporter_def Let_def None job_succeeded_def job_record_def)
  next
    case (Some e)
    show ?thesis
      by (rule run_extendsI[of _ _ "[?job]"])
         (simp_all add: call_exporter_def Let_def Some job_succeeded_def)
  qed
qed

lemma export_fbx_extends: "run_extends E st (snd (export_fbx E path objects st))"
proof (cases "objects = []")
  case True
  then show ?thesis by (simp add: export_fbx_def run_extends_refl)
next
  case False
  obtain ok msg st1 where e: "ensure_directory E (path_dirname (os E) path) st = ((ok, msg), st1)"
    by (metis prod.exhaust)
  then have st1: "st1 = snd (ensure_directory E (path_dirname (os E) path) st)" by simp
  show ?thesis
  proof (cases ok)
    case True
    have "run_extends E st (select_only E objects (enter_object_mode E st1))"
      by (rule run_extends_frame) (simp_all add: st1 ensure_directory_snd)
    then have "run_extends E st
           (snd (call_exporter E path (select_only E objects (enter_object_mode E st1))))"
      using call_exporter_extends run_extends_trans by blast
    then show ?thesis using False e True by (simp add: export_fbx_def)
  next
    case no: False
    have "run_extends E st (report ''ERROR'' msg st1)"
      by (rule run_extends_frame) (simp_all add: st1 ensure_directory_snd)
    then show ?thesis using False e no by (simp add: export_fbx_def)
  qed
qed

text \<open>
  Claim C5. For every configuration and output path, \<^verbatim>\<open>export_fbx\<close> with an empty object
  list returns \<open>False\<close> and leaves the state as it was: the filesystem is untouched (no
  directory is created), no record is appended to the exported files, and the exporter
  is not invoked.
\<close>

theorem export_fbx_empty_objects:
  "export_fbx E path [] st = (False, st)
   \<and> fs (snd (export_fbx E path [] st)) = fs st
   \<and> exported_files (snd (export_fbx E path [] st)) = exported_files st
   \<and> fbx_jobs (snd (export_fbx E path [] st)) = fbx_jobs st"
  by (simp add: export_fbx_def)

lemma call_exporter_jobs:
  "fbx_jobs (snd (call_exporter E path st))
     = fbx_jobs st @ [\<lparr> job_args = fbx_arguments (opts E) path, job_objects = selected_objects st \<rparr>]"
  by (simp add: call_exporter_def Let_def split: option.splits)

lemma export_fbx_jobs:
  "fbx_jobs (snd (export_fbx E path objects st)) = fbx_jobs st
   \<or> (\<exists>sel. fbx_jobs (snd (export_fbx E path objects st))
              = fbx_jobs st @ [\<lparr> job_args = fbx_arguments (opts E) path, job_objects = sel \<rparr>])"
proof -
  obtain ok msg st1 where e: "ensure_directory E (path_dirname (os E) path) st = ((ok, msg), st1)"
    by (metis prod.exhaust)
  then have st1: "st1 = snd (ensure_directory E (path_dirname (os E) path) st)" by simp
  have "fbx_jobs st1 = fbx_jobs st" by (simp add: st1 ensure_directory_snd)
  then show ?thesis using e by (auto simp: export_fbx_def call_exporter_jobs)
qed

text \<open>
  Claim C6, as the code has it. The exporter call passes \<^verbatim>\<open>bake_anim\<close>,
  \<^verbatim>\<open>bake_anim_use_all_bones\<close> and \<^verbatim>\<open>bake_anim_use_all_actions\<close> equal to the one
  "export animations" flag; \<^verbatim>\<open>use_armature_deform_only\<close> is \<open>True\<close> whatever the flag says;
  no option sets any of the four on its own. The object-kind filter holds ARMATURE
  exactly when the armature flag or the animations flag is set. These are the arguments
  of every invocation that \<^verbatim>\<open>export_fbx\<close> makes.
\<close>

theorem exporter_animation_arguments:
  "bake_anim (fbx_arguments p path) = export_animations p
   \<and> bake_anim_use_all_bones (fbx_arguments p path) = export_animations p
   \<and> bake_anim_use_all_actions (fbx_arguments p path) = export_animations p
   \<and> use_armature_deform_only (fbx_arguments p path) = True
   \<and> (''ARMATURE'' \<in> object_types (fbx_arguments p path)
        \<longleftrightarrow> export_armature p \<or> export_animations p)
   \<and> (fbx_jobs (snd (export_fbx E path objects st)) = fbx_jobs st
        \<or> (\<exists>sel. fbx_jobs (snd (export_fbx E path objects st))
                   = fbx_jobs st
                     @ [\<lparr> job_args = fbx_arguments (opts E) path, job_objects = sel \<rparr>]))"
  using export_fbx_jobs[of E path objects st]
  by (simp add: fbx_arguments_def ex_object_types_def)

text \<open>
  Claim C6 as the specification words it fails, since deformation-only baking does not
  follow the animations flag: with the default options
  the flag is off, and the one invocation of the export of Cube has \<^verbatim>\<open>bake_anim\<close> off
  and \<^verbatim>\<open>use_armature_deform_only\<close> on.
\<close>

theorem deform_only_ignores_animation_flag_counterexample:
  "export_animations default_props = False
   \<and> map (\<lambda>job. (bake_anim (job_args job), use_armature_deform_only (job_args job)))
       (fbx_jobs (snd (export_fbx
          \<lparr> os = posix, host = willing_host, scn = props_scene, opts = default_props \<rparr>
          ''/out/Cube.fbx'' [cube] (idle_state (posix_fs [''/out''] (\<lambda>p. None))))))
       = [(False, True)]"
  by code_simp

section \<open>Properties of the Export Orchestrator\<close>

lemma count_export_snd [simp]: "snd (count_export r) = snd r"
  by (simp add: count_export_def)

lemma snd_case_count [simp]: "snd (case r of (n, s) \<Rightarrow> (f n, s)) = snd r"
  by (cases r) simp

lemma snd_case_count3 [simp]:
  "snd (snd (case r of (n, v, s) \<Rightarrow> (f n, v, s))) = snd (snd r)"
  "fst (snd (case r of (n, v, s) \<Rightarrow> (f n, v, s))) = fst (snd r)"
  by (cases r; simp)+

lemma collection_folder_extends:
  "run_extends E st (snd (collection_folder E c parent_dir flag st))"
proof (cases flag)
  case False
  then show ?thesis by (simp add: collection_folder_def run_extends_refl)
next
  case True
  obtain ok msg st1 where
    e: "ensure_directory E (path_join (os E) parent_dir (coll_name c)) st = ((ok, msg), st1)"
    by (metis prod.exhaust)
  then have st1: "st1 = snd (ensure_directory E (path_join (os E) parent_dir (coll_name c)) st)"
    by simp
  have "run_extends E st st1" "run_extends E st (report ''ERROR'' msg st1)"
    by (rule run_extends_frame; simp add: st1 ensure_directory_snd)+
  then show ?thesis using True e by (simp add: collection_folder_def)
qed

lemma export_combined_extends:
  "run_extends E st (snd (export_combined E c folder allowed st))"
  by (simp add: export_combined_def Let_def export_fbx_extends run_extends_refl)

lemma export_direct_extends:
  "run_extends E st (snd (export_direct E c folder allowed st))"
  by (simp add: export_direct_def Let_def export_fbx_extends run_extends_refl)

lemma export_mapped_extends:
  "run_extends E st (snd (export_mapped E coll_map c folder st))"
  by (simp add: export_mapped_def export_fbx_extends run_extends_refl split: option.splits)

lemma export_collections_extend:
  "run_extends E st (snd (export_collection_recursive E c parent_dir allowed flag st))"
  "run_extends E st (snd (export_collections E cs parent_dir allowed flag st))"
proof (induction E c parent_dir allowed flag st and E cs parent_dir allowed flag st
       rule: export_collection_recursive_export_collections.induct)
  case (1 E name hide objs children parent_dir allowed_types create_subfolder st)
  let ?c = "Collection name hide objs children"
  obtain folder st1 where f: "collection_folder E ?c parent_dir create_subfolder st = (folder, st1)"
    by (metis prod.exhaust)
  have s1: "run_extends E st st1"
    using collection_folder_extends[of E st ?c parent_dir create_subfolder] f by simp
  show ?case
  proof (cases folder)
    case None
    then show ?thesis using f s1 by simp
  next
    case (Some coll_folder)
    show ?thesis
    proof (cases "combine_nested_collections (opts E) \<and> children \<noteq> []")
      case True
      have "run_extends E st1 (snd (export_combined E ?c coll_folder allowed_types st1))"
        by (rule export_combined_extends)
      with s1 have "run_extends E st (snd (export_combined E ?c coll_folder allowed_types st1))"
        by (rule run_extends_trans)
      then show ?thesis using f Some True by simp
    next
      case False
      obtain n1 st2 where d: "export_direct E ?c coll_folder allowed_types st1 = (n1, st2)"
        by (metis prod.exhaust)
      have s2: "run_extends E st1 st2"
        using export_direct_extends[of E st1 ?c coll_folder allowed_types] d by simp
      let ?r = "if separate_child_collections (opts E)
                then export_collections E children coll_folder allowed_types True st2
                else export_collections E children coll_folder allowed_types False st2"
      have "run_extends E st2 (snd ?r)"
        using "1.IH"[OF f[symmetric] Some False d[symmetric]] by simp
      with s1 s2 have "run_extends E st (snd ?r)"
        using run_extends_trans by blast
      then show ?thesis using f Some False d by (cases "separate_child_collections (opts E)") auto
    qed
  qed
next
  case (2 E parent_dir allowed_types create_subfolder st)
  then show ?case by (simp add: run_extends_refl)
next
  case (3 E coll rest parent_dir allowed_types create_subfolder st)
  obtain n1 st1 where a: "export_collection_recursive E coll parent_dir allowed_types create_subfolder st = (n1, st1)"
    by (metis prod.exhaust)
  have s1: "run_extends E st st1" using "3.IH"(1) a by simp
  have "run_extends E st1 (snd (export_collections E rest parent_dir allowed_types create_subfolder st1))"
    using "3.IH"(2)[OF a[symmetric]] by simp
  with s1 have "run_extends E st (snd (export_collections E rest parent_dir allowed_types create_subfolder st1))"
    by (rule run_extends_trans)
  then show ?case using a by simp
qed

lemma export_selected_extend:
  "run_extends E st (snd (snd (export_selected_as_collections E coll_map c parent_dir visited st)))"
  "run_extends E st (snd (snd (export_selected_children E coll_map cs folder visited st)))"
proof (induction E coll_map c parent_dir visited st and E coll_map cs folder visited st
       rule: export_selected_as_collections_export_selected_children.induct)
  case (1 E coll_map name hide objs children parent_dir visited st)
  let ?c = "Collection name hide objs children"
  let ?folder = "path_join (os E) parent_dir name"
  show ?case
  proof (cases "?c \<in> set visited")
    case True
    then show ?thesis by (simp add: run_extends_refl)
  next
    case False
    obtain ok msg st1 where e: "ensure_directory E ?folder st = ((ok, msg), st1)"
      by (metis prod.exhaust)
    then have st1: "st1 = snd (ensure_directory E ?folder st)" by simp
    have s1: "run_extends E st st1" "run_extends E st (report ''ERROR'' msg st1)"
      by (rule run_extends_frame; simp add: st1 ensure_directory_snd)+
    show ?thesis
    proof (cases ok)
      case no: False
      then show ?thesis using False e s1 by simp
    next
      case True
      obtain n1 st2 where m: "export_mapped E coll_map ?c ?folder st1 = (n1, st2)"
        by (metis prod.exhaust)
      have s2: "run_extends E st1 st2"
        using export_mapped_extends[of E st1 coll_map ?c ?folder] m by simp
      have "run_extends E st2
              (snd (snd (export_selected_children E coll_map children ?folder (?c # visited) st2)))"
        using "1.IH"[OF False e[symmetric] refl _ m[symmetric]] True by simp
      with s1(1) s2 have "run_extends E st
              (snd (snd (export_selected_children E coll_map children ?folder (?c # visited) st2)))"
        using run_extends_trans by blast
      then show ?thesis using False e True m by simp
    qed
  qed
next
  case (2 E coll_map coll_folder visited st)
  then show ?case by (simp add: run_extends_refl)
next
  case (3 E coll_map child rest coll_folder visited st)
  show ?case
  proof (cases "child \<in> fst ` set coll_map")
    case False
    then show ?thesis using "3.IH"(3) by simp
  next
    case True
    obtain n1 visited1 st1 where
      a: "export_selected_as_collections E coll_map child coll_folder visited st = (n1, visited1, st1)"
      by (metis prod.exhaust)
    have s1: "run_extends E st st1" using "3.IH"(1)[OF True] a by simp
    have "run_extends E st1
            (snd (snd (export_selected_children E coll_map rest coll_folder visited1 st1)))"
      using "3.IH"(2)[OF True a[symmetric] refl] by simp
    with s1 have "run_extends E st
            (snd (snd (export_selected_children E coll_map rest coll_folder visited1 st1)))"
      by (rule run_extends_trans)
    then show ?thesis using True a by simp
  qed
qed

lemma export_top_level_extends:
  "run_extends E st (snd (snd (export_top_level E coll_map cs directory visited st)))"
proof (induction cs arbitrary: visited st)
  case Nil
  then show ?case by (simp add: run_extends_refl)
next
  case (Cons c cs)
  obtain n1 visited1 st1 where
    a: "export_selected_as_collections E coll_map c directory visited st = (n1, visited1, st1)"
    by (metis prod.exhaust)
  have "run_extends E st st1" using export_selected_extend(1)[of E st coll_map c directory visited] a by simp
  then have "run_extends E st (snd (snd (export_top_level E coll_map cs directory visited1 st1)))"
    using Cons.IH run_extends_trans by blast
  then show ?case using a by simp
qed

lemma export_selected_each_object_extends:
  "run_extends E st (snd (export_selected_each_object E obs directory st))"
proof (induction obs arbitrary: st)
  case Nil
  then show ?case by (simp add: run_extends_refl)
next
  case (Cons ob rest)
  show ?case
  proof (cases "make_separate_folders (opts E)")
    case False
    obtain n1 st2 where
      x: "count_export (export_fbx E (fbx_path E directory (obj_name ob)) [ob] st) = (n1, st2)"
      by (metis prod.exhaust)
    have "run_extends E st st2"
      using export_fbx_extends[of E st "fbx_path E directory (obj_name ob)" "[ob]"] x
      by (metis count_export_snd snd_conv)
    then have "run_extends E st (snd (export_selected_each_object E rest directory st2))"
      using Cons.IH run_extends_trans by blast
    then show ?thesis using False x by simp
  next
    case True
    let ?folder = "path_join (os E) directory (obj_name ob)"
    obtain ok msg st1 where e: "ensure_directory E ?folder st = ((ok, msg), st1)"
      by (metis prod.exhaust)
    then have st1: "st1 = snd (ensure_directory E ?folder st)" by simp
    have s1: "run_extends E st st1" "run_extends E st (report ''ERROR'' msg st1)"
      by (rule run_extends_frame; simp add: st1 ensure_directory_snd)+
    show ?thesis
    proof (cases ok)
      case no: False
      have "run_extends E st (snd (export_selected_each_object E rest directory (report ''ERROR'' msg st1)))"
        using s1(2) Cons.IH run_extends_trans by blast
      then show ?thesis using True e no by simp
    next
      case yes: True
      obtain n1 st2 where
        x: "count_export (export_fbx E (fbx_path E ?folder (obj_name ob)) [ob] st1) = (n1, st2)"
        by (metis prod.exhaust)
      have "run_extends E st1 st2"
        using export_fbx_extends[of E st1 "fbx_path E ?folder (obj_name ob)" "[ob]"] x
        by (metis count_export_snd snd_conv)
      with s1(1) have "run_extends E st st2" by (rule run_extends_trans)
      then have "run_extends E st (snd (export_selected_each_object E rest directory st2))"
        using Cons.IH run_extends_trans by blast
      then show ?thesis using True e yes x by simp
    qed
  qed
qed


lemma execute_collections_extends:
  "run_extends E st (execute_collections E directory allowed st)"
proof -
  let ?valid = "filter (\<lambda>c. allowed_visible allowed (all_objects c) \<noteq> [])
                  (gather_top_level_collections (layer_children (scn E)))"
  obtain n st1 where a: "export_collections E ?valid directory allowed True st = (n, st1)"
    by (metis prod.exhaust)
  have "run_extends E st st1"
    using export_collections_extend(2)[of E st ?valid directory allowed True] a by simp
  moreover have "run_extends E st1 (report s m st1)" for s m
    by (rule run_extends_frame) simp_all
  ultimately have "run_extends E st (report s m st1)" for s m
    using run_extends_trans by blast
  then show ?thesis using a by (simp add: execute_collections_def Let_def)
qed

lemma execute_grouped_extends:
  "run_extends E st (execute_grouped E directory sel st)"
proof -
  let ?m = "gather_selected_by_collection (scn E) sel"
  let ?top = "filter (\<lambda>c. \<not> is_child c (map fst ?m)) (map fst ?m)"
  obtain n visited st1 where a: "export_top_level E ?m ?top directory [] st = (n, visited, st1)"
    by (metis prod.exhaust)
  have "run_extends E st st1"
    using export_top_level_extends[of E st ?m ?top directory "[]"] a by simp
  moreover have "run_extends E st1 (report s m st1)" for s m
    by (rule run_extends_frame) simp_all
  ultimately have "run_extends E st (report s m st1)" for s m
    using run_extends_trans by blast
  then show ?thesis using a by (simp add: execute_grouped_def Let_def)
qed

lemma execute_single_extends:
  "run_extends E st (execute_single E directory sel st)"
proof -
  let ?p = "fbx_path E directory (single_export_name E st)"
  obtain ok st1 where a: "export_fbx E ?p sel st = (ok, st1)"
    by (metis prod.exhaust)
  have "run_extends E st st1" using export_fbx_extends[of E st ?p sel] a by simp
  moreover have "run_extends E st1 (report s m st1)" for s m
    by (rule run_extends_frame) simp_all
  ultimately have "run_extends E st (report s m st1)" for s m
    using run_extends_trans by blast
  then show ?thesis using a by (simp add: execute_single_def Let_def)
qed

lemma execute_each_extends:
  "run_extends E st (execute_each E directory sel st)"
proof -
  obtain n st1 where a: "export_selected_each_object E sel directory st = (n, st1)"
    by (metis prod.exhaust)
  have "run_extends E st st1"
    using export_selected_each_object_extends[of E st sel directory] a by simp
  moreover have "run_extends E st1 (report s m st1)" for s m
    by (rule run_extends_frame) simp_all
  ultimately have "run_extends E st (report s m st1)" for s m
    using run_extends_trans by blast
  then show ?thesis using a by (simp add: execute_each_def)
qed

lemma restore_selection_fields [simp]:
  "fs (restore_selection sel act st) = fs st"
  "mode (restore_selection sel act st) = mode st"
  "exported_files (restore_selection sel act st) = exported_files st"
  "reports (restore_selection sel act st) = reports st"
  "fbx_jobs (restore_selection sel act st) = fbx_jobs st"
  "summary_dialogs (restore_selection sel act st) = summary_dialogs st"
  by (simp_all add: restore_selection_def Let_def fold_select_set deselect_all_def
               split: option.splits)

lemma present_results_fields [simp]:
  "fs (present_results st) = fs st"
  "mode (present_results st) = mode st"
  "selected_objects (present_results st) = selected_objects st"
  "active_object (present_results st) = active_object st"
  "exported_files (present_results st) = exported_files st"
  "reports (present_results st) = reports st"
  "fbx_jobs (present_results st) = fbx_jobs st"
  "summary_dialogs (present_results st)
     = (if exported_files st \<noteq> [] then summary_dialogs st @ [exported_files st]
        else summary_dialogs st)"
  by (simp_all add: present_results_def)

text \<open>What a run leaves, in terms of the state after its exports.\<close>

lemma run_exports_shape:
  "run_exports E directory st
     = Inr (CANCELLED, report ''WARNING'' ''No valid selected objects to export'' st)
   \<or> (\<exists>st1. run_extends E st st1
          \<and> run_exports E directory st
              = Inr (FINISHED,
                     present_results
                       (restore_selection (selected_objects st) (active_object st) st1)))"
  using execute_collections_extends[of E st directory "get_object_types (opts E)"]
    execute_grouped_extends[of E st directory] execute_single_extends[of E st directory]
    execute_each_extends[of E st directory]
  by (auto simp: run_exports_def Let_def finish_run_def)


lemma ensure_directory_exists_failure:
  "\<not> fst (fst (ensure_directory_exists pf files p)) \<Longrightarrow> snd (ensure_directory_exists pf files p) = files"
  by (auto simp: ensure_directory_exists_def os_makedirs_def
           split: sum.splits prod.splits if_splits option.splits)

lemma ensure_directory_failure:
  assumes "fst (ensure_directory_exists (os E) (fs st) p) = (False, msg)"
  shows "ensure_directory E p st = ((False, msg), st)"
proof -
  have "snd (ensure_directory_exists (os E) (fs st) p) = fs st"
    using assms by (simp add: ensure_directory_exists_failure)
  then have "ensure_directory_exists (os E) (fs st) p = ((False, msg), fs st)"
    using assms by (metis prod.collapse)
  then show ?thesis by (simp add: ensure_directory_def)
qed

lemma ensure_directory_exists_inside_missing:
  assumes "\<not> present files p" "path_dirname pf q = p"
  shows "fst (fst (ensure_directory_exists pf files q)) = False"
proof (cases "check_path_exists pf files (recursion_limit pf) p")
  case (Inl e)
  then show ?thesis using assms by (simp add: ensure_directory_exists_def creation_failure_fails)
next
  case (Inr r)
  obtain b m where r: "r = (b, m)" by (cases r)
  with Inr have "b = present files p" using check_path_exists_verdict by blast
  then show ?thesis using assms Inr r by (simp add: ensure_directory_exists_def)
qed

text \<open>
  Claim C7. When a directory cannot be prepared, only the export that needs it is given
  up, the reason is reported as an error, nothing else changes, and the run goes on with
  what follows: \<^verbatim>\<open>export_fbx\<close> returns \<open>False\<close>; \<^verbatim>\<open>export_collection_recursive\<close> returns 0
  for the collection whose folder failed, and the loop over the collections continues
  with the remaining ones from the state that differs by the one report only; the loop
  over the selected objects continues with the next object; the export of a selected
  collection returns 0. What is given up with a collection are its own file and the
  files of the collections below it, which for plain names go into that folder or below
  it; while the folder is missing no directory inside it can be prepared either.
\<close>

theorem directory_failure_skips_one_job:
  assumes "fst (ensure_directory_exists (os E) (fs st) p) = (False, msg)"
  shows "(objects \<noteq> [] \<and> path_dirname (os E) path = p
            \<longrightarrow> export_fbx E path objects st = (False, report ''ERROR'' msg st))
     \<and> (path_join (os E) parent_dir (coll_name c) = p
            \<longrightarrow> export_collection_recursive E c parent_dir allowed True st
                  = (0, report ''ERROR'' msg st)
              \<and> export_collections E (c # rest) parent_dir allowed True st
                  = export_collections E rest parent_dir allowed True (report ''ERROR'' msg st))
     \<and> (make_separate_folders (opts E) \<and> path_join (os E) directory (obj_name ob) = p
            \<longrightarrow> export_selected_each_object E (ob # obs) directory st
                  = export_selected_each_object E obs directory (report ''ERROR'' msg st))
     \<and> (\<not> make_separate_folders (opts E)
          \<and> path_dirname (os E) (fbx_path E directory (obj_name ob)) = p
            \<longrightarrow> export_selected_each_object E (ob # obs) directory st
                  = export_selected_each_object E obs directory (report ''ERROR'' msg st))
     \<and> (c \<notin> set visited \<and> path_join (os E) parent_dir (coll_name c) = p
            \<longrightarrow> export_selected_as_collections E coll_map c parent_dir visited st
                  = (0, c # visited, report ''ERROR'' msg st))
     \<and> (\<not> present (fs st) p \<and> path_dirname (os E) q = p
            \<longrightarrow> fst (fst (ensure_directory_exists (os E) (fs st) q)) = False)"
proof -
  note f = ensure_directory_failure[OF assms]
  have fbx: "export_fbx E path objects st = (False, report ''ERROR'' msg st)"
    if "objects \<noteq> []" "path_dirname (os E) path = p" for path objects
    using that f by (simp add: export_fbx_def)
  have one: "export_collection_recursive E c parent_dir allowed True st
               = (0, report ''ERROR'' msg st)"
    if "path_join (os E) parent_dir (coll_name c) = p"
    using that f by (cases c) (simp add: collection_folder_def)
  have loop: "export_collections E (c # rest) parent_dir allowed True st
                = export_collections E rest parent_dir allowed True (report ''ERROR'' msg st)"
    if "path_join (os E) parent_dir (coll_name c) = p"
    using one[OF that] by (simp split: prod.splits)
  have each1: "export_selected_each_object E (ob # obs) directory st
                  = export_selected_each_object E obs directory (report ''ERROR'' msg st)"
    if "make_separate_folders (opts E)" "path_join (os E) directory (obj_name ob) = p"
    using that f by simp
  have each2: "export_selected_each_object E (ob # obs) directory st
                  = export_selected_each_object E obs directory (report ''ERROR'' msg st)"
    if "\<not> make_separate_folders (opts E)"
       "path_dirname (os E) (fbx_path E directory (obj_name ob)) = p"
    using that fbx[of "[ob]" "fbx_path E directory (obj_name ob)"]
    by (simp add: count_export_def split: prod.splits)
  have sel: "export_selected_as_collections E coll_map c parent_dir visited st
                  = (0, c # visited, report ''ERROR'' msg st)"
    if "c \<notin> set visited" "path_join (os E) parent_dir (coll_name c) = p"
    using that f by (cases c) simp
  have inside: "fst (fst (ensure_directory_exists (os E) (fs st) q)) = False"
    if "\<not> present (fs st) p" "path_dirname (os E) q = p"
    using that by (rule ensure_directory_exists_inside_missing)
  from fbx one loop each1 each2 sel inside show ?thesis by blast
qed

theorem directory_failure_skips_one_job_witness:
  "fst (ensure_directory_exists posix denied_fs ''/out/Props'') = (False, denied_message)
   \<and> path_join posix ''/out'' (coll_name props_coll) = ''/out/Props''
   \<and> fst (export_collections (props_ctx default_props) [props_coll, nested_coll] ''/out''
            {''MESH''} True (idle_state denied_fs)) = 1
   \<and> reports (snd (export_collections (props_ctx default_props) [props_coll, nested_coll]
                      ''/out'' {''MESH''} True (idle_state denied_fs)))
       = [(''ERROR'', denied_message)]
   \<and> map (\<lambda>job. filepath (job_args job))
         (fbx_jobs (snd (export_collections (props_ctx default_props)
                           [props_coll, nested_coll] ''/out'' {''MESH''} True
                           (idle_state denied_fs))))
       = [''/out/Nested/Nested.fbx'']"
proof -
  let ?E = "props_ctx default_props"
  let ?st = "idle_state denied_fs"
  have os: "os ?E = posix" and files: "fs ?st = denied_fs"
    by (simp_all add: props_ctx_def idle_state_def)
  have a: "fst (ensure_directory_exists (os ?E) (fs ?st) ''/out/Props'') = (False, denied_message)"
    unfolding os files by code_simp
  have j: "path_join (os ?E) ''/out'' (coll_name props_coll) = ''/out/Props''"
    unfolding os by code_simp
  from directory_failure_skips_one_job[OF a, where c = props_coll and parent_dir = "''/out''"
         and rest = "[nested_coll]" and allowed = "{''MESH''}"] j
  have eq: "export_collections ?E [props_coll, nested_coll] ''/out'' {''MESH''} True ?st
          = export_collections ?E [nested_coll] ''/out'' {''MESH''} True
              (report ''ERROR'' denied_message ?st)"
    by blast
  have ev: "fst (export_collections ?E [nested_coll] ''/out'' {''MESH''} True
              (report ''ERROR'' denied_message ?st)) = 1
     \<and> reports (snd (export_collections ?E [nested_coll] ''/out'' {''MESH''} True
              (report ''ERROR'' denied_message ?st))) = [(''ERROR'', denied_message)]
     \<and> map (\<lambda>job. filepath (job_args job))
         (fbx_jobs (snd (export_collections ?E [nested_coll] ''/out'' {''MESH''} True
              (report ''ERROR'' denied_message ?st)))) = [''/out/Nested/Nested.fbx'']"
    by code_simp
  show ?thesis using a j ev unfolding eq os files by blast
qed

text \<open>
  Claim C2. Collection mode on the scene with Props (mesh Cube) and its child Nested
  (mesh Sphere), "separate child folders" on and "combine nested" off, with the root
  \<^verbatim>\<open>/out\<close>: the run finishes with exactly two exporter invocations, the first for
  \<^verbatim>\<open>/out/Props/Props.fbx\<close> with Cube selected and the second for
  \<^verbatim>\<open>/out/Props/Nested/Nested.fbx\<close> with Sphere selected, and records both files.
\<close>

theorem collection_scenario_two_files:
  "case execute (props_ctx (default_props\<lparr>separate_child_collections := True\<rparr>)) ''/out''
          (idle_state (posix_fs [''/out''] (\<lambda>p. None))) of
     Inl e \<Rightarrow> False
   | Inr (status, st') \<Rightarrow>
       status = FINISHED
       \<and> map (\<lambda>job. (filepath (job_args job), job_objects job)) (fbx_jobs st')
           = [(''/out/Props/Props.fbx'', [cube]), (''/out/Props/Nested/Nested.fbx'', [sphere])]
       \<and> exported_files st'
           = [(''Props.fbx'', ''/out/Props/Props.fbx''),
              (''Nested.fbx'', ''/out/Props/Nested/Nested.fbx'')]"
  by code_simp

text \<open>
  Claim C8 does not hold of the code. A run that starts with no active object (and
  nothing selected) and exports the two collections of the scene ends with Sphere as the
  active object: \<^verbatim>\<open>export_fbx\<close> makes the first object of each job active, and the last
  step of \<^verbatim>\<open>execute\<close> sets the active object back only \<^verbatim>\<open>if orig_active\<close>.
\<close>

theorem active_object_not_restored:
  "active_object (idle_state (posix_fs [''/out''] (\<lambda>p. None))) = None
   \<and> (case execute (props_ctx default_props) ''/out''
             (idle_state (posix_fs [''/out''] (\<lambda>p. None))) of
        Inl e \<Rightarrow> False
      | Inr (status, st') \<Rightarrow>
          status = FINISHED \<and> selected_objects st' = [] \<and> active_object st' = Some sphere)"
  by code_simp

lemma fold_set_add_distinct:
  "distinct (ys @ xs) \<Longrightarrow> fold set_add xs ys = ys @ xs"
  by (induction xs arbitrary: ys) (auto simp: set_add_def)

lemma restore_selection_selected:
  "distinct sel \<Longrightarrow> selected_objects (restore_selection sel act st) = sel"
  using fold_set_add_distinct[of "[]" sel]
  by (simp add: restore_selection_def Let_def fold_select_set deselect_all_def
           split: option.splits)

lemma restore_selection_active:
  "active_object (restore_selection sel act st)
     = (case act of None \<Rightarrow> active_object st | Some a \<Rightarrow> Some a)"
  by (simp add: restore_selection_def Let_def fold_select_set deselect_all_def
           split: option.splits)

text \<open>
  What the last step of \<^verbatim>\<open>execute\<close> does restore. Every run that returns leaves the
  selection as it found it (the snapshot \<^verbatim>\<open>context.selected_objects\<close> has no object
  twice), and leaves the active object as it found it when there was one, or when the
  run was cancelled.
\<close>

theorem selection_restored_when_active:
  assumes "execute E directory st0 = Inr (status, st')"
    and "distinct (selected_objects st0)"
  shows "selected_objects st' = selected_objects st0
     \<and> (active_object st0 \<noteq> None \<or> status = CANCELLED
          \<longrightarrow> active_object st' = active_object st0)"
proof -
  let ?st = "st0\<lparr>exported_files := []\<rparr>"
  let ?dir = "bpy_abspath (host E) directory"
  let ?good = "\<lambda>status st'. selected_objects st' = selected_objects st0
     \<and> (active_object st0 \<noteq> None \<or> status = CANCELLED
          \<longrightarrow> active_object st' = active_object st0)"
  obtain ex msg where c: "check_path_exists (os E) (fs ?st) (recursion_limit (os E))
                  (path_dirname (os E) ?dir) = Inr (ex, msg)"
    using assms(1)
    by (cases "check_path_exists (os E) (fs ?st) (recursion_limit (os E))
                  (path_dirname (os E) ?dir)") (auto simp: execute_def Let_def)
  show ?thesis
  proof (cases ex)
    case False
    then have "execute E directory st0 = Inr (CANCELLED, report ''ERROR'' msg ?st)"
      using c by (simp add: execute_def Let_def)
    with assms(1) show ?thesis by auto
  next
    case True
    obtain ok msg' st1 where e: "ensure_directory E ?dir ?st = ((ok, msg'), st1)"
      by (metis prod.exhaust)
    then have st1: "st1 = snd (ensure_directory E ?dir ?st)" by simp
    have sel1: "selected_objects st1 = selected_objects st0"
      "active_object st1 = active_object st0"
      by (simp_all add: st1 ensure_directory_snd)
    show ?thesis
    proof (cases ok)
      case no: False
      then have "execute E directory st0 = Inr (CANCELLED, report ''ERROR'' msg' st1)"
        using c True e by (simp add: execute_def Let_def)
      with assms(1) sel1 show ?thesis by auto
    next
      case yes: True
      have x: "execute E directory st0 = run_exports E ?dir st1"
        using c True e yes by (simp add: execute_def Let_def)
      from run_exports_shape[of E ?dir st1] show ?thesis
      proof
        assume "run_exports E ?dir st1
            = Inr (CANCELLED, report ''WARNING'' ''No valid selected objects to export'' st1)"
        with x assms(1) sel1 show ?thesis by auto
      next
        assume "\<exists>st2. run_extends E st1 st2
            \<and> run_exports E ?dir st1
                = Inr (FINISHED,
                       present_results
                         (restore_selection (selected_objects st1) (active_object st1) st2))"
        then obtain st2 where f: "run_exports E ?dir st1
                = Inr (FINISHED,
                       present_results
                         (restore_selection (selected_objects st1) (active_object st1) st2))"
          by blast
        with x assms(1) have s: "status = FINISHED"
          "st' = present_results (restore_selection (selected_objects st1) (active_object st1) st2)"
          by auto
        show ?thesis
          using assms(2) sel1
          by (auto simp: s restore_selection_selected restore_selection_active)
      qed
    qed
  qed
qed

theorem selection_restored_when_active_witness:
  "distinct (selected_objects ((idle_state (posix_fs [''/out''] (\<lambda>p. None)))
              \<lparr>selected_objects := [sphere], active_object := Some sphere\<rparr>))
   \<and> (case execute (props_ctx default_props) ''/out''
             ((idle_state (posix_fs [''/out''] (\<lambda>p. None)))
                \<lparr>selected_objects := [sphere], active_object := Some sphere\<rparr>) of
         Inl e \<Rightarrow> False
       | Inr (status, st') \<Rightarrow>
           status = FINISHED \<and> selected_objects st' = [sphere]
           \<and> active_object st' = Some sphere
           \<and> length (fbx_jobs st') = 2)"
proof -
  let ?st0 = "(idle_state (posix_fs [''/out''] (\<lambda>p. None)))
                \<lparr>selected_objects := [sphere], active_object := Some sphere\<rparr>"
  have d: "distinct (selected_objects ?st0)" by (simp add: idle_state_def)
  have a: "active_object ?st0 = Some sphere" "selected_objects ?st0 = [sphere]"
    by (simp_all add: idle_state_def)
  have r: "case execute (props_ctx default_props) ''/out'' ?st0 of
         Inl e \<Rightarrow> False
       | Inr (status, st') \<Rightarrow> status = FINISHED \<and> length (fbx_jobs st') = 2"
    by code_simp
  then obtain st' where x: "execute (props_ctx default_props) ''/out'' ?st0 = Inr (FINISHED, st')"
    and n: "length (fbx_jobs st') = 2"
    by (auto split: sum.splits)
  from selection_restored_when_active[OF x d] a
  have "selected_objects st' = [sphere]" "active_object st' = Some sphere" by auto
  with d x n show ?thesis by simp
qed

subsection \<open>The paths of the exported files\<close>























end
